theory Spec2Isabelle
  imports Main "HOL-Library.Char_ord" "HOL-Library.List_Lexorder" "HOL-Library.Multiset"
begin

unbundle bit_operations_syntax

section \<open>Python values and text\<close>

text \<open>
  The diagnostic script \<^verbatim>\<open>pibooth/scripts/diagnostic.py\<close> talks to a camera through
  the gphoto2 binding and writes everything it sees to a log. Text is a \<^typ>\<open>string\<close>, one
  \<^typ>\<open>char\<close> for each unit Python's \<^verbatim>\<open>len\<close> counts.
\<close>

abbreviation NL :: string where
  "NL \<equiv> [CHR 0x0A]"

abbreviation DQ :: string where
  "DQ \<equiv> [CHR 0x22]"

abbreviation SQ :: string where
  "SQ \<equiv> [CHR 0x27]"

text \<open>\<^verbatim>\<open>sep.join(xs)\<close>.\<close>

fun join :: "string \<Rightarrow> string list \<Rightarrow> string" where
  "join sep [] = []"
| "join sep [x] = x"
| "join sep (x # y # xs) = x @ sep @ join sep (y # xs)"

text \<open>\<^verbatim>\<open>str(n)\<close> for an integer, and the format \<^verbatim>\<open>{n:02d}\<close> of a list index.\<close>

fun str_nat :: "nat \<Rightarrow> string" where
  "str_nat n = (if n < 10 then [''0123456789'' ! n]
                else str_nat (n div 10) @ [''0123456789'' ! (n mod 10)])"

declare str_nat.simps [simp del]

definition str_int :: "int \<Rightarrow> string" where
  "str_int i = (if i < 0 then ''-'' @ str_nat (nat (- i)) else str_nat (nat i))"

definition format_02d :: "nat \<Rightarrow> string" where
  "format_02d n = (if n < 10 then ''0'' @ str_nat n else str_nat n)"

definition str_bool :: "bool \<Rightarrow> string" where
  "str_bool b = (if b then ''True'' else ''False'')"

text \<open>
  The values a configuration widget holds and the script passes on: \<^verbatim>\<open>None\<close>, a
  \<^verbatim>\<open>str\<close>, an \<^verbatim>\<open>int\<close>, or a \<^verbatim>\<open>float\<close>. No arithmetic is done on a float; it is
  carried as the text \<^verbatim>\<open>str\<close> gives for it.
\<close>

type_synonym pyfloat = string

datatype pyvalue = PyNone | PyStr string | PyInt int | PyFloat pyfloat

fun py_str :: "pyvalue \<Rightarrow> string" where
  "py_str PyNone = ''None''"
| "py_str (PyStr s) = s"
| "py_str (PyInt i) = str_int i"
| "py_str (PyFloat t) = t"

text \<open>\<^verbatim>\<open>str(type(v))\<close>.\<close>

fun py_type :: "pyvalue \<Rightarrow> string" where
  "py_type PyNone = ''<class '' @ SQ @ ''NoneType'' @ SQ @ ''>''"
| "py_type (PyStr s) = ''<class '' @ SQ @ ''str'' @ SQ @ ''>''"
| "py_type (PyInt i) = ''<class '' @ SQ @ ''int'' @ SQ @ ''>''"
| "py_type (PyFloat t) = ''<class '' @ SQ @ ''float'' @ SQ @ ''>''"

text \<open>
  The exceptions of class \<^verbatim>\<open>Exception\<close> the script meets, each with its \<^verbatim>\<open>str\<close>:
  the binding's \<^verbatim>\<open>gp.GPhoto2Error\<close>, and any other one (a decoding error of the imaging
  library, a \<^verbatim>\<open>TypeError\<close>).
\<close>

datatype exn = GPhoto2Error string | PyException string

fun str_exn :: "exn \<Rightarrow> string" where
  "str_exn (GPhoto2Error m) = m"
| "str_exn (PyException m) = m"

section \<open>The configuration tree\<close>

datatype widget_type =
    GP_WIDGET_WINDOW | GP_WIDGET_SECTION | GP_WIDGET_TEXT | GP_WIDGET_RANGE
  | GP_WIDGET_TOGGLE | GP_WIDGET_RADIO | GP_WIDGET_MENU | GP_WIDGET_BUTTON
  | GP_WIDGET_DATE

text \<open>
  A \<^verbatim>\<open>CameraWidget\<close> of a configuration snapshot, by what its accessors return.
  \<^verbatim>\<open>count_choices\<close> and \<^verbatim>\<open>get_choice(n)\<close> read the same list as \<^verbatim>\<open>get_choices\<close>.
\<close>

datatype widget = CameraWidget
  (get_name: string)
  (get_label: string)
  (get_readonly: bool)
  (get_type: widget_type)
  (get_value: pyvalue)
  (get_choices: "string list")
  (get_range: "pyfloat \<times> pyfloat \<times> pyfloat")
  (get_children: "widget list")

section \<open>The world the script runs in\<close>

text \<open>
  Every call the script makes outside itself, in order, with whether it returned
  (\<open>True\<close>) or raised.
\<close>

datatype call =
    GpLogAddFunc | GpCameraAutodetect | PortInfoListLoad | AbilitiesListLoad
  | AbilitiesListDetect | CameraInit | CameraGetAbilities | CameraGetConfig
  | WidgetSetValue "nat list" pyvalue | CameraSetConfig widget | CameraCapturePreview
  | CameraCapture | CameraFileGet string string | FileGetDataAndSize
  | DelGpLogCallback | CameraExit | ImageOpen string | ImageSave string

text \<open>
  \<open>LOGFILE\<close> is the module's global: \<open>None\<close> until the first \<^verbatim>\<open>write_log\<close> opens
  the file, then the texts written to it, one per \<^verbatim>\<open>write\<close>. \<open>stdout\<close> holds what
  each \<^verbatim>\<open>print\<close> wrote, \<open>device\<close> the state of the driver and the camera behind it,
  \<open>gp_log_callback\<close> whether the driver's logging hook is registered, \<open>files\<close> the
  working directory.
\<close>

record 'd world =
  LOGFILE :: "string list option"
  stdout :: "string list"
  device :: 'd
  gp_log_callback :: bool
  calls :: "(call \<times> bool) list"
  files :: "string \<rightharpoonup> string"

section \<open>\<^verbatim>\<open>write_log\<close>\<close>

definition APPNAME :: string where
  "APPNAME = ''diagnostic''"

definition separator :: string where
  "separator = NL @ replicate 80 (CHR ''='')"

definition truncation_marker :: string where
  "truncation_marker = ''[... -> see log file for full message]''"

text \<open>
  \<^verbatim>\<open>print(x)\<close> writes \<open>x\<close> and a line terminator. Opening the log with mode
  \<^verbatim>\<open>'w'\<close> starts from an empty file.
\<close>

definition print :: "string \<Rightarrow> 'd world \<Rightarrow> 'd world" where
  "print x w = w\<lparr>stdout := stdout w @ [x @ NL]\<rparr>"

definition LOGFILE_write :: "string \<Rightarrow> 'd world \<Rightarrow> 'd world" where
  "LOGFILE_write x w =
     w\<lparr>LOGFILE := Some ((case LOGFILE w of None \<Rightarrow> [] | Some written \<Rightarrow> written) @ [x])\<rparr>"

definition write_log :: "string \<Rightarrow> bool \<Rightarrow> 'd world \<Rightarrow> 'd world" where
  "write_log text new_section w =
     (let w1 = (if LOGFILE w = None then w\<lparr>LOGFILE := Some []\<rparr> else w);
          w2 = (if new_section
                then LOGFILE_write (separator @ NL) (print separator w1)
                else w1);
          w3 = print (take 200 text) w2;
          w4 = (if length text > 200 then print truncation_marker w3 else w3)
      in LOGFILE_write (text @ NL) w4)"

text \<open>The hook handed to the driver: \<^verbatim>\<open>gp_logging(level, domain, string)\<close>.\<close>

definition gp_logging :: "string \<times> string \<Rightarrow> 'd world \<Rightarrow> 'd world" where
  "gp_logging m w = write_log (''Gphoto2: '' @ fst m @ '': '' @ snd m) False w"

section \<open>The gphoto2 binding and the rest of the environment\<close>

text \<open>
  The binding, the camera, the imaging library and the boot glue are not part of the
  script; they are a parameter. A call into the driver runs on the state of the
  device: it gives the messages the driver logs meanwhile (domain and text), then
  either the \<^verbatim>\<open>str\<close> of the \<^verbatim>\<open>gp.GPhoto2Error\<close> it raises or its result, and the
  state it leaves.
\<close>

type_synonym gp_error = string

type_synonym ('a, 'd) gp_call = "'d \<Rightarrow> (string \<times> string) list \<times> (gp_error + 'a) \<times> 'd"

text \<open>
  A \<^verbatim>\<open>CameraFile\<close>, by what its \<^verbatim>\<open>get_data_and_size\<close> gives; an opened image, by what
  saving it gives: the bytes of the file written, or the message of the exception and
  what the failed save left under the file's name.
\<close>

type_synonym camera_file = "gp_error + string"

datatype pil_image = PilImage (save: "(string \<times> string option) + string")

record 'd env =
  pibooth_version :: string
  friendly_names :: "string list"
  gp_installed :: bool
  gp_library_version :: "string list option"
  gp_log_add_func :: "(unit, 'd) gp_call"
  has_gp_camera_autodetect :: bool
  gp_camera_autodetect :: "((string \<times> string) list, 'd) gp_call"
  port_info_list_load :: "(unit, 'd) gp_call"
  abilities_list_load :: "(unit, 'd) gp_call"
  abilities_list_detect :: "((string \<times> string) list, 'd) gp_call"
  camera_init :: "(unit, 'd) gp_call"
  camera_get_abilities :: "(int, 'd) gp_call"
  camera_get_config :: "(widget, 'd) gp_call"
  widget_set_value :: "widget \<Rightarrow> pyvalue \<Rightarrow> exn + widget"
  camera_set_config :: "widget \<Rightarrow> (unit, 'd) gp_call"
  camera_capture_preview :: "(unit, 'd) gp_call"
  camera_capture :: "(string \<times> string, 'd) gp_call"
  camera_file_get :: "string \<Rightarrow> string \<Rightarrow> (camera_file, 'd) gp_call"
  camera_exit :: "(unit, 'd) gp_call"
  python_repr :: "string \<Rightarrow> string"
  Image_open :: "string \<Rightarrow> string + pil_image"

text \<open>The operation bits of \<^verbatim>\<open>abilities.operations\<close> (libgphoto2's \<^verbatim>\<open>CameraOperation\<close>).\<close>

definition GP_OPERATION_CAPTURE_IMAGE :: int where
  "GP_OPERATION_CAPTURE_IMAGE = 1"

definition GP_OPERATION_CAPTURE_PREVIEW :: int where
  "GP_OPERATION_CAPTURE_PREVIEW = 8"

section \<open>Running Python statements\<close>

text \<open>
  A statement runs on the world and either raises an exception or gives a value.
\<close>

type_synonym ('a, 'd) py = "'d world \<Rightarrow> (exn + 'a) \<times> 'd world"

definition py_return :: "'a \<Rightarrow> ('a, 'd) py" where
  "py_return a w = (Inr a, w)"

definition py_raise :: "exn \<Rightarrow> ('a, 'd) py" where
  "py_raise e w = (Inl e, w)"

definition py_bind :: "('a, 'd) py \<Rightarrow> ('a \<Rightarrow> ('b, 'd) py) \<Rightarrow> ('b, 'd) py" where
  "py_bind m f w = (case m w of (Inl e, w') \<Rightarrow> (Inl e, w') | (Inr a, w') \<Rightarrow> f a w')"

definition py_log :: "string \<Rightarrow> bool \<Rightarrow> (unit, 'd) py" where
  "py_log text new_section w = (Inr (), write_log text new_section w)"

text \<open>
  A call into the driver: the device moves on, the call is recorded, the hook (when
  registered) logs the driver's messages, and an error code becomes a
  \<^verbatim>\<open>gp.GPhoto2Error\<close>.
\<close>

definition returned :: "'e + 'a \<Rightarrow> bool" where
  "returned r = (case r of Inl e \<Rightarrow> False | Inr a \<Rightarrow> True)"

definition gp_result :: "gp_error + 'a \<Rightarrow> exn + 'a" where
  "gp_result r = (case r of Inl e \<Rightarrow> Inl (GPhoto2Error e) | Inr a \<Rightarrow> Inr a)"

definition gp_call :: "call \<Rightarrow> ('a, 'd) gp_call \<Rightarrow> ('a, 'd) py" where
  "gp_call c f w =
     (case f (device w) of (msgs, r, d') \<Rightarrow>
        (let w1 = w\<lparr>device := d', calls := calls w @ [(c, returned r)]\<rparr>
         in (gp_result r, if gp_log_callback w then fold gp_logging msgs w1 else w1)))"

text \<open>A call outside the driver that touches nothing but the record of calls.\<close>

definition lib_call :: "call \<Rightarrow> (exn + 'a) \<Rightarrow> ('a, 'd) py" where
  "lib_call c r w = (r, w\<lparr>calls := calls w @ [(c, returned r)]\<rparr>)"

section \<open>\<^verbatim>\<open>print_config\<close>\<close>

text \<open>The table \<^verbatim>\<open>gp_widget_types\<close>; it has an entry for each widget type.\<close>

fun gp_widget_types :: "widget_type \<Rightarrow> string" where
  "gp_widget_types GP_WIDGET_WINDOW = ''Window toplevel''"
| "gp_widget_types GP_WIDGET_SECTION = ''Section (or Tab)''"
| "gp_widget_types GP_WIDGET_TEXT = ''Text''"
| "gp_widget_types GP_WIDGET_RANGE = ''Slider''"
| "gp_widget_types GP_WIDGET_TOGGLE = ''Toggle button (or check box)''"
| "gp_widget_types GP_WIDGET_RADIO = ''Radio button''"
| "gp_widget_types GP_WIDGET_MENU = ''Menu widget (same as Radio)''"
| "gp_widget_types GP_WIDGET_BUTTON = ''Button press''"
| "gp_widget_types GP_WIDGET_DATE = ''Date entering''"

text \<open>\<^verbatim>\<open>str\<close> of a list of strings, given \<^verbatim>\<open>repr\<close> of a string.\<close>

definition str_list :: "(string \<Rightarrow> string) \<Rightarrow> string list \<Rightarrow> string" where
  "str_list repr xs = ''['' @ join '', '' (map repr xs) @ '']''"

text \<open>The last line of a widget's description, by its type.\<close>

definition choices_line :: "(string \<Rightarrow> string) \<Rightarrow> widget \<Rightarrow> string" where
  "choices_line repr child =
     (if get_type child = GP_WIDGET_RADIO then
        ''  Choices     : '' @ str_list repr (get_choices child)
      else if get_type child = GP_WIDGET_RANGE then
        (case get_range child of (lo, hi, step) \<Rightarrow>
           ''  Choices     : min='' @ lo @ '', max='' @ hi @ '', step='' @ step)
      else if get_type child = GP_WIDGET_TOGGLE then
        ''  Choices     : [0, 1]''
      else if get_type child = GP_WIDGET_MENU then
        ''  Choices     : '' @ str_list repr (get_choices child)
      else
        ''  Choices     : n/a'')"

text \<open>The \<^verbatim>\<open>else\<close> branch of the loop: the seven lines that describe one widget.\<close>

definition print_widget :: "(string \<Rightarrow> string) \<Rightarrow> widget \<Rightarrow> string \<Rightarrow> 'd world \<Rightarrow> 'd world" where
  "print_widget repr child path w =
     (let w1 = write_log path False w;
          w2 = write_log (''  Label       : '' @ get_label child) False w1;
          w3 = write_log (''  Readonly    : '' @ (if get_readonly child then ''yes'' else ''no''))
                 False w2;
          w4 = write_log (''  Data type   : '' @ py_type (get_value child)) False w3;
          w5 = write_log (''  Widget type : '' @ gp_widget_types (get_type child)) False w4;
          w6 = write_log (''  Current     : '' @ py_str (get_value child)) False w5
      in write_log (choices_line repr child) False w6)"

text \<open>
  \<^verbatim>\<open>print_config(config, parent)\<close>; \<open>print_children\<close> is its loop over
  \<^verbatim>\<open>config.get_children()\<close>.
\<close>

fun print_config :: "(string \<Rightarrow> string) \<Rightarrow> widget \<Rightarrow> string \<Rightarrow> 'd world \<Rightarrow> 'd world"
  and print_children :: "(string \<Rightarrow> string) \<Rightarrow> widget list \<Rightarrow> string \<Rightarrow> 'd world \<Rightarrow> 'd world"
where
  "print_config repr (CameraWidget name label ro type val choices rng children) parent w =
     print_children repr children parent w"
| "print_children repr [] parent w = w"
| "print_children repr (child # rest) parent w =
     (let path = join ''/'' [parent, get_name child] in
      print_children repr rest parent
        (if get_type child = GP_WIDGET_SECTION
         then print_config repr child path w
         else print_widget repr child path w))"

section \<open>Reading and writing one setting\<close>

text \<open>
  \<^verbatim>\<open>get_child_by_name\<close> is the library's \<^verbatim>\<open>gp_widget_get_child_by_name\<close>: the widget
  itself when it bears the name, or else the first widget found with it in the subtrees
  of its children, taken in order; an error when there is none. A widget handed out is a
  place in the snapshot (the child indices that lead to it) together with the widget
  found there.
\<close>

fun find_by_name :: "widget \<Rightarrow> string \<Rightarrow> (nat list \<times> widget) option"
  and find_in_children :: "widget list \<Rightarrow> nat \<Rightarrow> string \<Rightarrow> (nat list \<times> widget) option"
where
  "find_by_name (CameraWidget name label ro type val choices rng children) n =
     (if name = n
      then Some ([], CameraWidget name label ro type val choices rng children)
      else find_in_children children 0 n)"
| "find_in_children [] i n = None"
| "find_in_children (child # rest) i n =
     (case find_by_name child n of
        Some (p, found) \<Rightarrow> Some (i # p, found)
      | None \<Rightarrow> find_in_children rest (Suc i) n)"

definition GP_ERROR_BAD_PARAMETERS :: gp_error where
  "GP_ERROR_BAD_PARAMETERS = ''[-2] Bad parameters''"

definition get_child_by_name :: "nat list \<times> widget \<Rightarrow> string \<Rightarrow> (nat list \<times> widget, 'd) py" where
  "get_child_by_name parent name =
     (case find_by_name (snd parent) name of
        None \<Rightarrow> py_raise (GPhoto2Error GP_ERROR_BAD_PARAMETERS)
      | Some (p, found) \<Rightarrow> py_return (fst parent @ p, found))"

text \<open>The snapshot with the widget at a place replaced.\<close>

fun replace_at :: "widget \<Rightarrow> nat list \<Rightarrow> widget \<Rightarrow> widget"
  and replace_in_children :: "widget list \<Rightarrow> nat \<Rightarrow> nat list \<Rightarrow> widget \<Rightarrow> widget list"
where
  "replace_at old [] new = new"
| "replace_at (CameraWidget name label ro type val choices rng children) (i # p) new =
     CameraWidget name label ro type val choices rng (replace_in_children children i p new)"
| "replace_in_children [] i p new = []"
| "replace_in_children (child # rest) 0 p new = replace_at child p new # rest"
| "replace_in_children (child # rest) (Suc i) p new = child # replace_in_children rest i p new"

text \<open>
  \<^verbatim>\<open>child.set_value(value)\<close> changes the widget inside the snapshot that holds it; the
  binding decides what the widget becomes, or raises.
\<close>

definition set_value :: "'d env \<Rightarrow> widget \<Rightarrow> nat list \<times> widget \<Rightarrow> pyvalue \<Rightarrow> (widget, 'd) py" where
  "set_value ev config child v =
     py_bind (lib_call (WidgetSetValue (fst child) v) (widget_set_value ev (snd child) v))
       (\<lambda>changed. py_return (replace_at config (fst child) changed))"

text \<open>The texts of lines 84, 93, 97, 107 and 110.\<close>

definition setting_line :: "string \<Rightarrow> string \<Rightarrow> pyvalue \<Rightarrow> string" where
  "setting_line section option v =
     ''Setting option '' @ section @ ''/'' @ option @ ''='' @ DQ @ py_str v @ DQ"

definition invalid_line :: "(string \<Rightarrow> string) \<Rightarrow> string \<Rightarrow> pyvalue \<Rightarrow> string list \<Rightarrow> string" where
  "invalid_line repr option v choices =
     ''   -> invalid value '' @ SQ @ py_str v @ SQ @ '' for option '' @ option
       @ '' (possible choices: '' @ str_list repr choices @ '')''"

definition unsupported_line :: "string \<Rightarrow> string \<Rightarrow> pyvalue \<Rightarrow> string" where
  "unsupported_line section option v =
     ''   -> unsupported setting '' @ section @ ''/'' @ option @ ''='' @ py_str v
       @ '' (nothing configured on DSLR)''"

definition getting_line :: "string \<Rightarrow> string \<Rightarrow> pyvalue \<Rightarrow> string" where
  "getting_line section option v =
     ''Getting option '' @ section @ ''/'' @ option @ ''='' @ py_str v"

definition unknown_line :: "string \<Rightarrow> string \<Rightarrow> string" where
  "unknown_line section option = ''Unknown option '' @ section @ ''/'' @ option"

text \<open>The body of the \<^verbatim>\<open>try\<close> of \<^verbatim>\<open>set_config_value\<close>, then the function.\<close>

definition set_config_value_try :: "'d env \<Rightarrow> string \<Rightarrow> string \<Rightarrow> pyvalue \<Rightarrow> (unit, 'd) py" where
  "set_config_value_try ev section option v =
     py_bind (py_log (setting_line section option v) False)
       (\<lambda>_. py_bind (gp_call CameraGetConfig (camera_get_config ev))
       (\<lambda>config. py_bind (get_child_by_name ([], config) section)
       (\<lambda>sec. py_bind (get_child_by_name sec option)
       (\<lambda>child.
          let choices = (if get_type (snd child) = GP_WIDGET_RADIO
                         then Some (get_choices (snd child)) else None)
          in py_bind
               (case choices of
                  Some cs \<Rightarrow>
                    if cs \<noteq> [] \<and> v \<notin> PyStr ` set cs
                    then py_log (invalid_line (python_repr ev) option v cs) False
                    else py_return ()
                | None \<Rightarrow> py_return ())
          (\<lambda>_. py_bind (set_value ev config child v)
          (\<lambda>config'. gp_call (CameraSetConfig config') (camera_set_config ev config')))))))"

definition set_config_value :: "'d env \<Rightarrow> string \<Rightarrow> string \<Rightarrow> pyvalue \<Rightarrow> (unit, 'd) py" where
  "set_config_value ev section option v w =
     (case set_config_value_try ev section option v w of
        (Inl (GPhoto2Error e), w') \<Rightarrow>
          (Inr (), write_log (unsupported_line section option v) False w')
      | r \<Rightarrow> r)"

text \<open>
  \<^verbatim>\<open>get_config_value\<close>: the body of its \<^verbatim>\<open>try\<close>, then the function, which returns
  \<^verbatim>\<open>None\<close> when it falls off the end of the handler.
\<close>

definition get_config_value_try :: "'d env \<Rightarrow> string \<Rightarrow> string \<Rightarrow> (pyvalue, 'd) py" where
  "get_config_value_try ev section option =
     py_bind (gp_call CameraGetConfig (camera_get_config ev))
       (\<lambda>config. py_bind (get_child_by_name ([], config) section)
       (\<lambda>sec. py_bind (get_child_by_name sec option)
       (\<lambda>child.
          let v = get_value (snd child)
          in py_bind (py_log (getting_line section option v) False)
          (\<lambda>_. py_return v))))"

definition get_config_value :: "'d env \<Rightarrow> string \<Rightarrow> string \<Rightarrow> (pyvalue, 'd) py" where
  "get_config_value ev section option w =
     (case get_config_value_try ev section option w of
        (Inl (GPhoto2Error e), w') \<Rightarrow> (Inr PyNone, write_log (unknown_line section option) False w')
      | r \<Rightarrow> r)"

section \<open>\<^verbatim>\<open>camera_connected\<close> and \<^verbatim>\<open>main\<close>\<close>

definition camera_connected :: "'d env \<Rightarrow> ((string \<times> string) list, 'd) py" where
  "camera_connected ev =
     (if has_gp_camera_autodetect ev
      then gp_call GpCameraAutodetect (gp_camera_autodetect ev)
      else py_bind (gp_call PortInfoListLoad (port_info_list_load ev))
             (\<lambda>_. py_bind (gp_call AbilitiesListLoad (abilities_list_load ev))
             (\<lambda>_. gp_call AbilitiesListDetect (abilities_list_detect ev))))"

text \<open>
  How a run of \<^verbatim>\<open>main\<close> ends: it returns, it calls \<^verbatim>\<open>sys.exit\<close>, or an exception
  leaves it. The status of the process follows.
\<close>

datatype outcome = Returned | SystemExit nat | Uncaught exn

fun exit_status :: "outcome \<Rightarrow> nat" where
  "exit_status Returned = 0"
| "exit_status (SystemExit n) = n"
| "exit_status (Uncaught e) = 1"

text \<open>
  Lines 131 to 141: the versions and the plugins. The boot glue (logging set-up,
  plugin manager, configuration file) only provides the two texts.
\<close>

definition log_versions :: "'d env \<Rightarrow> 'd world \<Rightarrow> 'd world" where
  "log_versions ev w =
     write_log (''Installed plugins: '' @ join '', '' (friendly_names ev)) False
       (write_log (''Pibooth version installed: '' @ pibooth_version ev) False w)"

text \<open>
  Lines 147 to 153: the version of the library, when it can be read. \<open>None\<close> is a
  call that raises, and the empty list makes \<^verbatim>\<open>info[0]\<close> raise; both are passed over.
\<close>

definition log_library_version :: "'d env \<Rightarrow> 'd world \<Rightarrow> 'd world" where
  "log_library_version ev w =
     (case gp_library_version ev of
        None \<Rightarrow> w
      | Some [] \<Rightarrow> w
      | Some (v # opts) \<Rightarrow>
          fold (\<lambda>opt. write_log (''  - '' @ opt) False) opts
            (write_log (''GPhoto2 version installed: '' @ v) False w))"

text \<open>Lines 155 to 157: the hook is registered and the cameras are listed.\<close>

definition detect_cameras :: "'d env \<Rightarrow> ((string \<times> string) list, 'd) py" where
  "detect_cameras ev =
     py_bind (gp_call GpLogAddFunc (gp_log_add_func ev))
       (\<lambda>_. py_bind (\<lambda>w. (Inr (), w\<lparr>gp_log_callback := True\<rparr>))
       (\<lambda>_. py_bind (py_log ''Listing all connected DSLR camera'' False)
       (\<lambda>_. camera_connected ev)))"

text \<open>Line 163, and the loop of lines 164 and 165.\<close>

definition sort_cameras :: "(string \<times> string) list \<Rightarrow> (string \<times> string) list" where
  "sort_cameras cameras_list = sort_key fst cameras_list"

fun camera_line :: "nat \<times> string \<times> string \<Rightarrow> string" where
  "camera_line (index, name, addr) =
     format_02d index @ '' : addr-> '' @ addr @ ''  name-> '' @ name"

definition log_cameras :: "(string \<times> string) list \<Rightarrow> 'd world \<Rightarrow> 'd world" where
  "log_cameras cameras_list w =
     fold (\<lambda>c. write_log (camera_line c) False) (enumerate 0 cameras_list) w"

text \<open>Lines 167 to 175: the session is opened and the two flags are read.\<close>

definition preview_line :: "bool \<Rightarrow> string" where
  "preview_line preview_compat = ''* Preview compatible: '' @ str_bool preview_compat"

definition open_session :: "'d env \<Rightarrow> (bool, 'd) py" where
  "open_session ev =
     py_bind (py_log ''Stating diagnostic of connected DSLR camera'' True)
       (\<lambda>_. py_bind (gp_call CameraInit (camera_init ev))
       (\<lambda>_. py_bind (gp_call CameraGetAbilities (camera_get_abilities ev))
       (\<lambda>operations.
          let preview_compat =
                (GP_OPERATION_CAPTURE_PREVIEW = operations AND GP_OPERATION_CAPTURE_PREVIEW)
          in py_bind (py_log (preview_line preview_compat) False)
          (\<lambda>_.
          let capture_compat =
                (GP_OPERATION_CAPTURE_IMAGE = operations AND GP_OPERATION_CAPTURE_IMAGE)
          in py_bind (py_log (''* Capture compatible: '' @ str_bool capture_compat) False)
          (\<lambda>_. py_return capture_compat)))))"

text \<open>Writing a file, and the two calls into the imaging library.\<close>

definition write_file :: "string \<Rightarrow> string \<Rightarrow> (unit, 'd) py" where
  "write_file name data w = (Inr (), w\<lparr>files := (files w)(name \<mapsto> data)\<rparr>)"

definition image_open :: "'d env \<Rightarrow> string \<Rightarrow> (pil_image, 'd) py" where
  "image_open ev data =
     lib_call (ImageOpen data)
       (case Image_open ev data of Inl m \<Rightarrow> Inl (PyException m) | Inr img \<Rightarrow> Inr img)"

definition image_save :: "pil_image \<Rightarrow> string \<Rightarrow> (unit, 'd) py" where
  "image_save img name w =
     (case save img of
        Inl (m, left) \<Rightarrow>
          (Inl (PyException m),
           w\<lparr>files := (files w)(name := left), calls := calls w @ [(ImageSave name, False)]\<rparr>)
      | Inr encoded \<Rightarrow>
          (Inr (),
           w\<lparr>files := (files w)(name \<mapsto> encoded), calls := calls w @ [(ImageSave name, True)]\<rparr>))"

text \<open>
  Lines 179 to 207, the body of the \<^verbatim>\<open>try\<close>, in two parts: up to the bytes of the
  captured file (line 203), then the two files written from them.
\<close>

definition capture_and_download :: "'d env \<Rightarrow> (string, 'd) py" where
  "capture_and_download ev =
     py_bind (gp_call CameraGetConfig (camera_get_config ev))
       (\<lambda>config. py_bind (\<lambda>w. (Inr (), print_config (python_repr ev) config [] w))
       (\<lambda>_. py_bind (py_log ''Testing commands used by pibooth'' True)
       (\<lambda>_. py_bind (set_config_value ev ''imgsettings'' ''iso'' (PyStr ''100''))
       (\<lambda>_. py_bind (set_config_value ev ''settings'' ''capturetarget'' (PyStr ''Memory card''))
       (\<lambda>_. py_bind (get_config_value ev ''actions'' ''viewfinder'')
       (\<lambda>viewfinder.
          py_bind (if viewfinder \<noteq> PyNone
                   then set_config_value ev ''actions'' ''viewfinder'' (PyInt 1)
                   else py_return ())
       (\<lambda>_. py_bind (py_log ''Take capture preview'' False)
       (\<lambda>_. py_bind (gp_call CameraCapturePreview (camera_capture_preview ev))
       (\<lambda>_. py_bind (if viewfinder \<noteq> PyNone
                      then set_config_value ev ''actions'' ''viewfinder'' (PyInt 0)
                      else py_return ())
       (\<lambda>_. py_bind (py_log ''Take a capture'' False)
       (\<lambda>_. py_bind (gp_call CameraCapture (camera_capture ev))
       (\<lambda>gp_path. py_bind (py_log ''Download file from DSLR'' False)
       (\<lambda>_. py_bind (gp_call (CameraFileGet (fst gp_path) (snd gp_path))
                        (camera_file_get ev (fst gp_path) (snd gp_path)))
       (\<lambda>camera_file. py_bind (py_log ''Save capture locally from memory buffer'' False)
       (\<lambda>_. lib_call FileGetDataAndSize (gp_result camera_file))))))))))))))))"

definition save_locally :: "'d env \<Rightarrow> string \<Rightarrow> (unit, 'd) py" where
  "save_locally ev data =
     py_bind (write_file (APPNAME @ ''.raw'') data)
       (\<lambda>_. py_bind (image_open ev data)
       (\<lambda>img. image_save img (APPNAME @ ''.jpg'')))"

definition scripted_exercise :: "'d env \<Rightarrow> (unit, 'd) py" where
  "scripted_exercise ev = py_bind (capture_and_download ev) (save_locally ev)"

text \<open>The texts of lines 210 and 214.\<close>

definition abort_line :: "exn \<Rightarrow> string" where
  "abort_line ex = ''ABORT   : exception occures: '' @ str_exn ex"

definition success_line :: string where
  "success_line = ''SUCCESS : diagnostic completed''"

text \<open>
  Lines 177 to 211: the \<^verbatim>\<open>try\<close> with its handler, which catches every
  \<^verbatim>\<open>Exception\<close>. The result is the flag \<^verbatim>\<open>error\<close>.
\<close>

definition capture_test :: "'d env \<Rightarrow> bool \<Rightarrow> 'd world \<Rightarrow> bool \<times> 'd world" where
  "capture_test ev capture_compat w =
     (if capture_compat
      then (case scripted_exercise ev w of
              (Inl ex, w') \<Rightarrow>
                (True, write_log (abort_line ex) True w')
            | (Inr u, w') \<Rightarrow> (False, w'))
      else (False, w))"

text \<open>Lines 213 to 221: the verdict, the end of the session, the closing lines.\<close>

definition del_gp_log_callback :: "'d world \<Rightarrow> 'd world" where
  "del_gp_log_callback w =
     w\<lparr>gp_log_callback := False, calls := calls w @ [(DelGpLogCallback, True)]\<rparr>"

definition closing_lines :: "'d world \<Rightarrow> 'd world" where
  "closing_lines w =
     write_log ''on https://github.com/pibooth/pibooth/issues'' False
       (write_log (''please paste the content of generated file '' @ SQ @ APPNAME @ ''.log'' @ SQ) False
         (write_log ''If you are investigating why pibooth does not work with your DSLR camera,''
            False w))"

definition close_session :: "'d env \<Rightarrow> bool \<Rightarrow> 'd world \<Rightarrow> outcome \<times> 'd world" where
  "close_session ev error w =
     (let w1 = (if \<not> error then write_log success_line True w else w)
      in case gp_call CameraExit (camera_exit ev) (del_gp_log_callback w1) of
           (Inl e, w2) \<Rightarrow> (Uncaught e, w2)
         | (Inr u, w2) \<Rightarrow> (Returned, closing_lines w2))"

text \<open>
  \<^verbatim>\<open>main\<close>, lines 129 to 175: up to the open session. The result is how the run ended
  when it ends here, or else the flag \<^verbatim>\<open>capture_compat\<close>.
\<close>

definition start_session :: "'d env \<Rightarrow> 'd world \<Rightarrow> (outcome + bool) \<times> 'd world" where
  "start_session ev w =
     (let w1 = log_versions ev w in
      if \<not> gp_installed ev
      then (Inl (SystemExit 1),
            write_log ''gPhoto2 not installed, cannot diagnose connected DSLR'' False w1)
      else
        (case detect_cameras ev (log_library_version ev w1) of
           (Inl e, w2) \<Rightarrow> (Inl (Uncaught e), w2)
         | (Inr cameras_list, w2) \<Rightarrow>
             if cameras_list = []
             then (Inl (SystemExit 1),
                   write_log ''No compatible DSLR camera detected'' False w2)
             else
               (case open_session ev (log_cameras (sort_cameras cameras_list) w2) of
                  (Inl e, w3) \<Rightarrow> (Inl (Uncaught e), w3)
                | (Inr capture_compat, w3) \<Rightarrow> (Inr capture_compat, w3))))"

text \<open>\<^verbatim>\<open>main\<close>: the open session, the capture test, and the end.\<close>

definition main :: "'d env \<Rightarrow> 'd world \<Rightarrow> outcome \<times> 'd world" where
  "main ev w =
     (case start_session ev w of
        (Inl out, w') \<Rightarrow> (out, w')
      | (Inr capture_compat, w3) \<Rightarrow>
          (case capture_test ev capture_compat w3 of
             (error, w4) \<Rightarrow> close_session ev error w4))"

section \<open>Notions the properties are stated with\<close>

text \<open>What has been written to the log file so far.\<close>

definition logged :: "'d world \<Rightarrow> string list" where
  "logged w = (case LOGFILE w of None \<Rightarrow> [] | Some written \<Rightarrow> written)"

text \<open>
  The widget \<^verbatim>\<open>config.get_child_by_name(section).get_child_by_name(option)\<close> stands for,
  with its place in the snapshot, when both searches succeed.
\<close>

definition resolve :: "widget \<Rightarrow> string \<Rightarrow> string \<Rightarrow> (nat list \<times> widget) option" where
  "resolve config section option =
     (case find_by_name config section of
        None \<Rightarrow> None
      | Some (p, sec) \<Rightarrow>
          (case find_by_name sec option of
             None \<Rightarrow> None
           | Some (q, child) \<Rightarrow> Some (p @ q, child)))"

text \<open>
  All the widgets below a widget, parents before children and children in order, each
  with its ancestors up to (and without) the widget the walk started from, outermost
  first.
\<close>

fun below :: "widget list \<Rightarrow> widget \<Rightarrow> (widget list \<times> widget) list"
  and below_children :: "widget list \<Rightarrow> widget list \<Rightarrow> (widget list \<times> widget) list"
where
  "below ancestors (CameraWidget name label ro type val choices rng children) =
     below_children ancestors children"
| "below_children ancestors [] = []"
| "below_children ancestors (child # rest) =
     (ancestors, child) # below (ancestors @ [child]) child @ below_children ancestors rest"

text \<open>
  The path of a widget under a prefix: a separator and a name for each ancestor and
  for the widget itself.
\<close>

definition path_below :: "string \<Rightarrow> widget list \<Rightarrow> widget \<Rightarrow> string" where
  "path_below parent ancestors child =
     parent @ concat (map (\<lambda>a. ''/'' @ get_name a) (ancestors @ [child]))"

text \<open>The widgets \<^verbatim>\<open>print_config\<close> describes: no section, and under sections only.\<close>

definition described :: "widget list \<times> widget \<Rightarrow> bool" where
  "described d \<longleftrightarrow>
     get_type (snd d) \<noteq> GP_WIDGET_SECTION \<and> (\<forall>a \<in> set (fst d). get_type a = GP_WIDGET_SECTION)"

text \<open>
  An environment with the preview bit of the camera's abilities set as a function of
  the state of the device says, and nothing else changed.
\<close>

definition with_preview :: "('d \<Rightarrow> bool) \<Rightarrow> 'd env \<Rightarrow> 'd env" where
  "with_preview preview ev =
     ev\<lparr>camera_get_abilities :=
          (\<lambda>d. case camera_get_abilities ev d of
                  (msgs, r, d') \<Rightarrow>
                    (msgs,
                     map_sum id
                       (\<lambda>operations.
                          if preview d
                          then operations OR GP_OPERATION_CAPTURE_PREVIEW
                          else operations AND NOT GP_OPERATION_CAPTURE_PREVIEW) r,
                     d'))\<rparr>"

section \<open>A camera to run the script on\<close>

text \<open>
  A driver without state whose calls log nothing, a small configuration, and an
  environment in which every call succeeds. The scenarios below change one call at a
  time.
\<close>

definition succeeds :: "'a \<Rightarrow> ('a, unit) gp_call" where
  "succeeds a d = ([], Inr a, d)"

definition fails :: "gp_error \<Rightarrow> ('a, unit) gp_call" where
  "fails e d = ([], Inl e, d)"

definition leaf :: "string \<Rightarrow> widget_type \<Rightarrow> pyvalue \<Rightarrow> string list \<Rightarrow> widget" where
  "leaf name type val choices = CameraWidget name name False type val choices ([], [], []) []"

definition node :: "string \<Rightarrow> widget_type \<Rightarrow> widget list \<Rightarrow> widget" where
  "node name type children = CameraWidget name name False type PyNone [] ([], [], []) children"

definition iso :: widget where
  "iso = leaf ''iso'' GP_WIDGET_RADIO (PyStr ''200'') [''200'', ''400'']"

definition small_config :: widget where
  "small_config = node ''main'' GP_WIDGET_WINDOW [node ''imgsettings'' GP_WIDGET_SECTION [iso]]"

definition store_value :: "widget \<Rightarrow> pyvalue \<Rightarrow> exn + widget" where
  "store_value child v =
     Inr (CameraWidget (get_name child) (get_label child) (get_readonly child) (get_type child)
            v (get_choices child) (get_range child) (get_children child))"

definition camera :: "widget \<Rightarrow> unit env" where
  "camera config =
     \<lparr>pibooth_version = ''2.0.8'',
      friendly_names = [],
      gp_installed = True,
      gp_library_version = None,
      gp_log_add_func = succeeds (),
      has_gp_camera_autodetect = True,
      gp_camera_autodetect = succeeds [(''Nikon'', ''usb:2''), (''Canon'', ''usb:1'')],
      port_info_list_load = succeeds (),
      abilities_list_load = succeeds (),
      abilities_list_detect = succeeds [],
      camera_init = succeeds (),
      camera_get_abilities = succeeds 9,
      camera_get_config = succeeds config,
      widget_set_value = store_value,
      camera_set_config = (\<lambda>config. succeeds ()),
      camera_capture_preview = succeeds (),
      camera_capture = succeeds (''/'', ''capt0000.jpg''),
      camera_file_get = (\<lambda>folder name. succeeds (Inr ''JFIF'')),
      camera_exit = succeeds (),
      python_repr = (\<lambda>s. SQ @ s @ SQ),
      Image_open = (\<lambda>data. Inr (PilImage (Inr data)))\<rparr>"

definition fresh :: "unit world" where
  "fresh = \<lparr>LOGFILE = None, stdout = [], device = (), gp_log_callback = False, calls = [],
            files = Map.empty\<rparr>"

text \<open>A radio button that declares no choice at all.\<close>

definition bare_iso :: widget where
  "bare_iso = leaf ''iso'' GP_WIDGET_RADIO (PyStr ''200'') []"

definition bare_config :: widget where
  "bare_config = node ''main'' GP_WIDGET_WINDOW [node ''imgsettings'' GP_WIDGET_SECTION [bare_iso]]"




text \<open>The path \<^verbatim>\<open>print_config\<close> has built when it is that deep below where it started.\<close>

definition path_prefix :: "string \<Rightarrow> widget list \<Rightarrow> string" where
  "path_prefix parent ancestors = parent @ concat (map (\<lambda>a. ''/'' @ get_name a) ancestors)"

text \<open>
  Two notions for the proofs. A world grows into another when the log and the record of
  calls are only added to, and no line added is the verdict of success. A statement is
  tame when it leaves the files alone and only makes the world grow.
\<close>

definition grows :: "'d world \<Rightarrow> 'd world \<Rightarrow> bool" where
  "grows w w' \<longleftrightarrow>
     (\<exists>ls. logged w' = logged w @ ls \<and> success_line @ NL \<notin> set ls) \<and>
     (\<exists>evs. calls w' = calls w @ evs)"

definition tame :: "('d world \<Rightarrow> 'r \<times> 'd world) \<Rightarrow> bool" where
  "tame m \<longleftrightarrow> (\<forall>w. files (snd (m w)) = files w \<and> grows w (snd (m w)))"

text \<open>
  Scenarios: a camera that cannot be opened; one whose capture fails; one that is
  unplugged at the capture, so that closing the session fails too; one whose download
  fails; one that delivers a file the imaging library cannot read.
\<close>

definition no_session :: "unit env" where
  "no_session = (camera small_config)\<lparr>camera_init := fails ''[-105] Unknown model''\<rparr>"

definition no_capture :: "unit env" where
  "no_capture = (camera small_config)\<lparr>camera_capture := fails ''[-7] I/O problem''\<rparr>"

definition unplugged :: "unit env" where
  "unplugged = no_capture\<lparr>camera_exit := fails ''[-7] I/O problem''\<rparr>"

definition no_download :: "unit env" where
  "no_download = (camera small_config)
     \<lparr>camera_file_get := (\<lambda>folder name. fails ''[-108] File not found'')\<rparr>"

definition not_an_image :: "unit env" where
  "not_an_image = (camera small_config)
     \<lparr>Image_open := (\<lambda>data. Inl ''cannot identify image file'')\<rparr>"

section \<open>Telling two runs apart\<close>

text \<open>
  Two worlds that agree on the device, the hook, the calls made and the files, and whose
  log file and console are alike from some line on: the log files start with \<open>l1\<close> and
  \<open>l2\<close>, the consoles with \<open>o1\<close> and \<open>o2\<close>, and what follows is the same.
\<close>

definition same_but :: "string list \<Rightarrow> string list \<Rightarrow> string list \<Rightarrow> string list
    \<Rightarrow> 'd world \<Rightarrow> 'd world \<Rightarrow> bool" where
  "same_but l1 l2 o1 o2 w1 w2 \<longleftrightarrow>
     (\<exists>ls. LOGFILE w1 = Some (l1 @ ls) \<and> LOGFILE w2 = Some (l2 @ ls)) \<and>
     (\<exists>os. stdout w1 = o1 @ os \<and> stdout w2 = o2 @ os) \<and>
     device w1 = device w2 \<and> gp_log_callback w1 = gp_log_callback w2 \<and>
     calls w1 = calls w2 \<and> files w1 = files w2"

text \<open>
  A piece of the script is blind to what has been written when it cannot tell two such
  worlds apart: it ends the same way in both and leaves them alike as before.
\<close>

definition blind :: "('d world \<Rightarrow> 'r \<times> 'd world) \<Rightarrow> bool" where
  "blind m \<longleftrightarrow>
     (\<forall>l1 l2 o1 o2 w1 w2. same_but l1 l2 o1 o2 w1 w2 \<longrightarrow>
        fst (m w1) = fst (m w2) \<and> same_but l1 l2 o1 o2 (snd (m w1)) (snd (m w2)))"

text \<open>\<^verbatim>\<open>main\<close> from line 177 on: the capture test and the end of the run.\<close>

definition rest_of_main :: "'d env \<Rightarrow> bool \<Rightarrow> 'd world \<Rightarrow> outcome \<times> 'd world" where
  "rest_of_main ev capture_compat w =
     (case capture_test ev capture_compat w of (error, w4) \<Rightarrow> close_session ev error w4)"

section \<open>Properties of the logger\<close>

text \<open>
  C8. For every text: the console gets the first 200 units of the text on a line of
  its own, followed by the fixed truncation marker exactly when the text is longer than
  200 units, and the log file gets the full text and a line terminator. A new section
  puts the separator before both. Nothing else changes.
\<close>

theorem write_log_truncation:
  "write_log text new_section w =
     w\<lparr>LOGFILE := Some ((case LOGFILE w of None \<Rightarrow> [] | Some written \<Rightarrow> written)
                        @ (if new_section then [separator @ NL] else [])
                        @ [text @ NL]),
       stdout := stdout w
                 @ (if new_section then [separator @ NL] else [])
                 @ [take 200 text @ NL]
                 @ (if 200 < length text then [truncation_marker @ NL] else [])\<rparr>"
  by (simp add: write_log_def print_def LOGFILE_write_def Let_def split: option.splits)

section \<open>Facts about the building blocks\<close>

lemma write_log_fields [simp]:
  "device (write_log t ns w) = device w"
  "gp_log_callback (write_log t ns w) = gp_log_callback w"
  "calls (write_log t ns w) = calls w"
  "files (write_log t ns w) = files w"
  "LOGFILE (write_log t ns w) = Some (logged w @ (if ns then [separator @ NL] else []) @ [t @ NL])"
  "stdout (write_log t ns w) =
     stdout w @ (if ns then [separator @ NL] else []) @ [take 200 t @ NL]
       @ (if 200 < length t then [truncation_marker @ NL] else [])"
  by (simp_all add: write_log_def print_def LOGFILE_write_def Let_def logged_def
        split: option.splits)

lemma logged_write_log [simp]:
  "logged (write_log t ns w) = logged w @ (if ns then [separator @ NL] else []) @ [t @ NL]"
  by (simp add: logged_def)

lemma logged_update [simp]:
  "logged (w\<lparr>device := d\<rparr>) = logged w"
  "logged (w\<lparr>calls := cs\<rparr>) = logged w"
  "logged (w\<lparr>gp_log_callback := b\<rparr>) = logged w"
  "logged (w\<lparr>files := fs\<rparr>) = logged w"
  by (simp_all add: logged_def)

lemma fold_gp_logging_fields [simp]:
  "device (fold gp_logging msgs w) = device w"
  "gp_log_callback (fold gp_logging msgs w) = gp_log_callback w"
  "calls (fold gp_logging msgs w) = calls w"
  "files (fold gp_logging msgs w) = files w"
  by (induction msgs arbitrary: w) (simp_all add: gp_logging_def)

lemma fold_gp_logging_logged:
  "\<exists>rest. logged (fold gp_logging msgs w) = logged w @ rest"
proof (induction msgs arbitrary: w)
  case Nil
  show ?case by simp
next
  case (Cons m msgs)
  from Cons[of "gp_logging m w"] show ?case
    by (auto simp: gp_logging_def)
qed

lemma py_bind_return [simp]: "py_bind (py_return a) f = f a"
  by (auto simp: py_bind_def py_return_def fun_eq_iff)

lemma py_bind_raise [simp]: "py_bind (py_raise e) f = py_raise e"
  by (auto simp: py_bind_def py_raise_def fun_eq_iff)

lemma py_bind_log [simp]: "py_bind (py_log t ns) f w = f () (write_log t ns w)"
  by (simp add: py_bind_def py_log_def)

lemma py_bind_Inl: "m w = (Inl e, w') \<Longrightarrow> py_bind m f w = (Inl e, w')"
  by (simp add: py_bind_def)

lemma py_bind_Inr: "m w = (Inr a, w') \<Longrightarrow> py_bind m f w = f a w'"
  by (simp add: py_bind_def)

lemma py_bind_assoc: "py_bind (py_bind m f) g = py_bind m (\<lambda>a. py_bind (f a) g)"
  by (auto simp: py_bind_def fun_eq_iff split: prod.splits sum.splits)

lemma gp_call_bind:
  "py_bind (gp_call c f) k w =
     (case gp_call c f w of (Inl e, w') \<Rightarrow> (Inl e, w') | (Inr a, w') \<Rightarrow> k a w')"
  by (simp add: py_bind_def)

lemma lib_call_bind:
  "py_bind (lib_call c r) k w =
     (case r of Inl e \<Rightarrow> (Inl e, w\<lparr>calls := calls w @ [(c, False)]\<rparr>)
              | Inr a \<Rightarrow> k a (w\<lparr>calls := calls w @ [(c, True)]\<rparr>))"
  by (simp add: py_bind_def lib_call_def returned_def split: sum.splits)

text \<open>A call into the driver raises nothing but a \<^verbatim>\<open>gp.GPhoto2Error\<close>.\<close>

lemma gp_call_Inl: "gp_call c f w = (Inl e, w') \<Longrightarrow> \<exists>m. e = GPhoto2Error m"
  by (auto simp: gp_call_def Let_def gp_result_def split: prod.splits sum.splits)

lemma gp_call_calls:
  "calls (snd (gp_call c f w)) = calls w @ [(c, returned (fst (snd (f (device w)))))]"
  by (simp add: gp_call_def Let_def split: prod.splits)

lemma gp_call_logged: "\<exists>rest. logged (snd (gp_call c f w)) = logged w @ rest"
proof (cases "f (device w)")
  case (fields msgs r d')
  with fold_gp_logging_logged[of msgs "w\<lparr>device := d', calls := calls w @ [(c, returned r)]\<rparr>"]
  show ?thesis
    by (auto simp: gp_call_def Let_def)
qed

text \<open>The two searches of an accessor, inside a sequence of statements.\<close>

lemma resolve_bind:
  "py_bind (get_child_by_name ([], config) section)
     (\<lambda>sec. py_bind (get_child_by_name sec option) f) w =
   (case resolve config section option of
      None \<Rightarrow> (Inl (GPhoto2Error GP_ERROR_BAD_PARAMETERS), w)
    | Some child \<Rightarrow> f child w)"
  by (simp add: get_child_by_name_def resolve_def py_raise_def split: option.splits)

text \<open>What the body of \<^verbatim>\<open>set_config_value\<close> does, step by step.\<close>

lemma set_config_value_try_run:
  "set_config_value_try ev section option v w =
     (case gp_call CameraGetConfig (camera_get_config ev)
             (write_log (setting_line section option v) False w) of
        (Inl e, w1) \<Rightarrow> (Inl e, w1)
      | (Inr config, w1) \<Rightarrow>
          (case resolve config section option of
             None \<Rightarrow> (Inl (GPhoto2Error GP_ERROR_BAD_PARAMETERS), w1)
           | Some child \<Rightarrow>
               (let w2 = (if get_type (snd child) = GP_WIDGET_RADIO
                             \<and> get_choices (snd child) \<noteq> []
                             \<and> v \<notin> PyStr ` set (get_choices (snd child))
                          then write_log (invalid_line (python_repr ev) option v
                                            (get_choices (snd child))) False w1
                          else w1)
                in case widget_set_value ev (snd child) v of
                     Inl e \<Rightarrow>
                       (Inl e, w2\<lparr>calls := calls w2 @ [(WidgetSetValue (fst child) v, False)]\<rparr>)
                   | Inr changed \<Rightarrow>
                       gp_call (CameraSetConfig (replace_at config (fst child) changed))
                         (camera_set_config ev (replace_at config (fst child) changed))
                         (w2\<lparr>calls := calls w2 @ [(WidgetSetValue (fst child) v, True)]\<rparr>))))"
  unfolding set_config_value_try_def
  by (auto simp: gp_call_bind resolve_bind set_value_def py_bind_assoc lib_call_bind Let_def
        split: prod.splits sum.splits option.splits)

text \<open>What \<^verbatim>\<open>get_config_value\<close> does, step by step.\<close>

lemma get_config_value_run:
  "get_config_value ev section option w =
     (case gp_call CameraGetConfig (camera_get_config ev) w of
        (Inl e, w1) \<Rightarrow> (Inr PyNone, write_log (unknown_line section option) False w1)
      | (Inr config, w1) \<Rightarrow>
          (case resolve config section option of
             None \<Rightarrow> (Inr PyNone, write_log (unknown_line section option) False w1)
           | Some child \<Rightarrow>
               (Inr (get_value (snd child)),
                write_log (getting_line section option (get_value (snd child))) False w1)))"
proof (cases "gp_call CameraGetConfig (camera_get_config ev) w")
  case (Pair r w1)
  show ?thesis
  proof (cases r)
    case (Inl e)
    with Pair gp_call_Inl obtain m where "e = GPhoto2Error m" by blast
    with Pair Inl show ?thesis
      by (simp add: get_config_value_def get_config_value_try_def py_bind_Inl)
  next
    case (Inr config)
    with Pair show ?thesis
      by (simp add: get_config_value_def get_config_value_try_def py_bind_Inr resolve_bind
            Let_def py_return_def split: option.splits)
  qed
qed

lemmas camera_defs = camera_def succeeds_def fails_def small_config_def node_def leaf_def
  iso_def fresh_def store_value_def

section \<open>Device enumeration\<close>



section \<open>The accessors absorb the driver's errors\<close>

text \<open>
  C3. Whatever the section, the option and the value: \<^verbatim>\<open>set_config_value\<close> never
  raises a \<^verbatim>\<open>gp.GPhoto2Error\<close> to its caller; and when a driver error occurs in its
  body (fetching the snapshot, finding the widget, checking it, setting the value,
  committing), the function returns normally after writing the line
  \<open>unsupported setting ... (nothing configured on DSLR)\<close> to the log.
\<close>

theorem set_config_value_absorbs_driver_errors:
  "(\<forall>e. fst (set_config_value ev section option v w) \<noteq> Inl (GPhoto2Error e)) \<and>
   (\<forall>e w'. set_config_value_try ev section option v w = (Inl (GPhoto2Error e), w') \<longrightarrow>
      set_config_value ev section option v w
        = (Inr (), write_log (unsupported_line section option v) False w') \<and>
      logged (snd (set_config_value ev section option v w))
        = logged w' @ [unsupported_line section option v @ NL])"
  by (simp add: set_config_value_def split: prod.splits sum.splits exn.splits)

theorem set_config_value_absorbs_driver_errors_witness:
  "fst (set_config_value (camera small_config) ''settings'' ''capturetarget''
          (PyStr ''Memory card'') fresh) = Inr () \<and>
   logged (snd (set_config_value (camera small_config) ''settings'' ''capturetarget''
                  (PyStr ''Memory card'') fresh))
     = [''Setting option settings/capturetarget='' @ DQ @ ''Memory card'' @ DQ @ NL,
        ''   -> unsupported setting settings/capturetarget=Memory card (nothing configured on DSLR)''
          @ NL]"
proof -
  let ?w = "(write_log (setting_line ''settings'' ''capturetarget'' (PyStr ''Memory card''))
               False fresh)\<lparr>calls := [(CameraGetConfig, True)]\<rparr>"
  have "set_config_value_try (camera small_config) ''settings'' ''capturetarget''
          (PyStr ''Memory card'') fresh = (Inl (GPhoto2Error GP_ERROR_BAD_PARAMETERS), ?w)"
    by (simp add: set_config_value_try_run camera_defs gp_call_def resolve_def gp_result_def
          returned_def)
  with set_config_value_absorbs_driver_errors
         [of "camera small_config" "''settings''" "''capturetarget''" "PyStr ''Memory card''" fresh]
  show ?thesis
    by (simp add: setting_line_def unsupported_line_def fresh_def logged_def)
qed


section \<open>A value outside the choices of a radio button\<close>

lemmas eval_defs = gp_call_def resolve_def gp_result_def returned_def set_config_value_def
  set_config_value_try_run setting_line_def invalid_line_def unsupported_line_def str_list_def
  logged_def

text \<open>
  C5, as the code has it. When the widget found is a radio button whose list of choices
  is not empty and does not hold the value, \<^verbatim>\<open>set_config_value\<close> writes the
  \<open>invalid value\<close> line to the log and then still calls \<^verbatim>\<open>set_value\<close> on the widget;
  when that call returns, the changed snapshot is committed with \<^verbatim>\<open>set_config\<close>, and
  nothing else is sent to the driver.
\<close>

theorem radio_invalid_value_still_written:
  assumes fetch: "gp_call CameraGetConfig (camera_get_config ev)
                    (write_log (setting_line section option v) False w) = (Inr config, w1)"
      and found: "resolve config section option = Some child"
      and radio: "get_type (snd child) = GP_WIDGET_RADIO"
      and some: "get_choices (snd child) \<noteq> []"
      and invalid: "v \<notin> PyStr ` set (get_choices (snd child))"
  shows "\<exists>rest more.
           logged (snd (set_config_value ev section option v w))
             = logged w1 @ [invalid_line (python_repr ev) option v (get_choices (snd child)) @ NL]
                 @ rest \<and>
           calls (snd (set_config_value ev section option v w))
             = calls w1 @ [(WidgetSetValue (fst child) v,
                            returned (widget_set_value ev (snd child) v))] @ more \<and>
           (\<forall>changed. widget_set_value ev (snd child) v = Inr changed \<longrightarrow>
              (\<exists>b. more = [(CameraSetConfig (replace_at config (fst child) changed), b)]))"
proof -
  let ?w2 = "write_log (invalid_line (python_repr ev) option v (get_choices (snd child))) False w1"
  show ?thesis
  proof (cases "widget_set_value ev (snd child) v")
    case (Inl e)
    let ?w3 = "?w2\<lparr>calls := calls ?w2 @ [(WidgetSetValue (fst child) v, False)]\<rparr>"
    from assms Inl have "set_config_value_try ev section option v w = (Inl e, ?w3)"
      by (simp add: set_config_value_try_run)
    with Inl show ?thesis
      by (cases e) (simp_all add: set_config_value_def returned_def)
  next
    case (Inr changed)
    let ?c = "replace_at config (fst child) changed"
    let ?w3 = "?w2\<lparr>calls := calls ?w2 @ [(WidgetSetValue (fst child) v, True)]\<rparr>"
    let ?g = "gp_call (CameraSetConfig ?c) (camera_set_config ev ?c) ?w3"
    from assms Inr have t: "set_config_value_try ev section option v w = ?g"
      by (simp add: set_config_value_try_run)
    obtain rest where l: "logged (snd ?g) = logged ?w3 @ rest"
      using gp_call_logged by blast
    have c: "calls (snd ?g) = calls ?w3 @ [(CameraSetConfig ?c,
                 returned (fst (snd (camera_set_config ev ?c (device ?w3)))))]"
      by (rule gp_call_calls)
    obtain r w4 where g: "?g = (r, w4)" by (cases ?g)
    show ?thesis
    proof (cases r)
      case (Inl e)
      with g gp_call_Inl obtain m where "e = GPhoto2Error m" by blast
      with t g Inl l c Inr show ?thesis
        by (simp add: set_config_value_def returned_def)
    next
      case (Inr u)
      with t g l c \<open>widget_set_value ev (snd child) v = Inr changed\<close> show ?thesis
        by (simp add: set_config_value_def returned_def)
    qed
  qed
qed

theorem radio_invalid_value_still_written_witness:
  "logged (snd (set_config_value (camera small_config) ''imgsettings'' ''iso'' (PyStr ''100'') fresh))
     = [''Setting option imgsettings/iso='' @ DQ @ ''100'' @ DQ @ NL,
        ''   -> invalid value '' @ SQ @ ''100'' @ SQ @ '' for option iso (possible choices: [''
          @ SQ @ ''200'' @ SQ @ '', '' @ SQ @ ''400'' @ SQ @ ''])'' @ NL] \<and>
   calls (snd (set_config_value (camera small_config) ''imgsettings'' ''iso'' (PyStr ''100'') fresh))
     = [(CameraGetConfig, True),
        (WidgetSetValue [0, 0] (PyStr ''100''), True),
        (CameraSetConfig
           (node ''main'' GP_WIDGET_WINDOW
              [node ''imgsettings'' GP_WIDGET_SECTION
                 [leaf ''iso'' GP_WIDGET_RADIO (PyStr ''100'') [''200'', ''400'']]]), True)]"
proof -
  let ?ev = "camera small_config"
  let ?w1 = "(write_log (setting_line ''imgsettings'' ''iso'' (PyStr ''100'')) False fresh)
               \<lparr>calls := [(CameraGetConfig, True)]\<rparr>"
  have fetch: "gp_call CameraGetConfig (camera_get_config ?ev)
                 (write_log (setting_line ''imgsettings'' ''iso'' (PyStr ''100'')) False fresh)
               = (Inr small_config, ?w1)"
    by (simp add: camera_defs gp_call_def gp_result_def returned_def)
  have found: "resolve small_config ''imgsettings'' ''iso'' = Some ([0, 0], iso)"
    by (simp add: camera_defs resolve_def)
  have radio: "get_type (snd ([0::nat, 0], iso)) = GP_WIDGET_RADIO"
    and some: "get_choices (snd ([0::nat, 0], iso)) \<noteq> []"
    and invalid: "PyStr ''100'' \<notin> PyStr ` set (get_choices (snd ([0::nat, 0], iso)))"
    by (simp_all add: camera_defs)
  from radio_invalid_value_still_written [OF fetch found radio some invalid]
  obtain rest more where
    "logged (snd (set_config_value ?ev ''imgsettings'' ''iso'' (PyStr ''100'') fresh))
       = logged ?w1 @ [invalid_line (python_repr ?ev) ''iso'' (PyStr ''100'')
                         (get_choices (snd ([0::nat, 0], iso))) @ NL] @ rest"
    and "calls (snd (set_config_value ?ev ''imgsettings'' ''iso'' (PyStr ''100'') fresh))
       = calls ?w1 @ [(WidgetSetValue (fst ([0::nat, 0], iso)) (PyStr ''100''),
                      returned (widget_set_value ?ev (snd ([0::nat, 0], iso)) (PyStr ''100'')))] @ more"
    by blast
  moreover have "set_config_value ?ev ''imgsettings'' ''iso'' (PyStr ''100'') fresh
      = (Inr (), (write_log (invalid_line (python_repr ?ev) ''iso'' (PyStr ''100'') [''200'', ''400''])
                   False ?w1)
           \<lparr>calls := [(CameraGetConfig, True),
        (WidgetSetValue [0, 0] (PyStr ''100''), True),
        (CameraSetConfig
           (node ''main'' GP_WIDGET_WINDOW
              [node ''imgsettings'' GP_WIDGET_SECTION
                 [leaf ''iso'' GP_WIDGET_RADIO (PyStr ''100'') [''200'', ''400'']]]), True)]\<rparr>)"
    by (simp add: camera_defs eval_defs)
  ultimately show ?thesis
    by (simp add: camera_defs eval_defs)
qed

text \<open>
  As stated, C5 fails for a radio button with an empty list of choices: the value is
  not among the choices, and no warning is written (the test \<^verbatim>\<open>if choices and ...\<close> of
  line 92 is false for an empty list). The write is attempted all the same.
\<close>

theorem radio_without_choices_counterexample:
  "get_type bare_iso = GP_WIDGET_RADIO \<and>
   PyStr ''100'' \<notin> PyStr ` set (get_choices bare_iso) \<and>
   resolve bare_config ''imgsettings'' ''iso'' = Some ([0, 0], bare_iso) \<and>
   logged (snd (set_config_value (camera bare_config) ''imgsettings'' ''iso'' (PyStr ''100'') fresh))
     = [''Setting option imgsettings/iso='' @ DQ @ ''100'' @ DQ @ NL] \<and>
   calls (snd (set_config_value (camera bare_config) ''imgsettings'' ''iso'' (PyStr ''100'') fresh))
     = [(CameraGetConfig, True),
        (WidgetSetValue [0, 0] (PyStr ''100''), True),
        (CameraSetConfig
           (node ''main'' GP_WIDGET_WINDOW
              [node ''imgsettings'' GP_WIDGET_SECTION
                 [leaf ''iso'' GP_WIDGET_RADIO (PyStr ''100'') []]]), True)]"
  by (simp add: camera_defs eval_defs bare_iso_def bare_config_def)

section \<open>The traversal of the configuration tree\<close>

lemma below_keeps_ancestors:
  "d \<in> set (below ancestors c) \<Longrightarrow> set ancestors \<subseteq> set (fst d)"
  "d \<in> set (below_children ancestors cs) \<Longrightarrow> set ancestors \<subseteq> set (fst d)"
  by (induction ancestors c and ancestors cs arbitrary: d and d rule: below_below_children.induct)
     (auto, blast+)

lemma nothing_described_below:
  assumes "get_type child \<noteq> GP_WIDGET_SECTION"
  shows "filter described (below (ancestors @ [child]) child) = []"
proof -
  have "\<not> described d" if "d \<in> set (below (ancestors @ [child]) child)" for d
  proof -
    from below_keeps_ancestors(1)[OF that] have "child \<in> set (fst d)" by auto
    with assms show ?thesis by (auto simp: described_def)
  qed
  then show ?thesis by (simp add: filter_empty_conv)
qed

lemma print_config_fold:
  "\<forall>a \<in> set ancestors. get_type a = GP_WIDGET_SECTION \<Longrightarrow>
   print_config repr c (path_prefix parent ancestors) w =
     fold (\<lambda>d. print_widget repr (snd d) (path_below parent (fst d) (snd d)))
       (filter described (below ancestors c)) w"
  "\<forall>a \<in> set ancestors. get_type a = GP_WIDGET_SECTION \<Longrightarrow>
   print_children repr cs (path_prefix parent ancestors) w =
     fold (\<lambda>d. print_widget repr (snd d) (path_below parent (fst d) (snd d)))
       (filter described (below_children ancestors cs)) w"
proof (induction ancestors c and ancestors cs arbitrary: w and w rule: below_below_children.induct)
  case (1 ancestors name label ro type val choices rng children)
  then show ?case by simp
next
  case (2 ancestors)
  show ?case by simp
next
  case (3 ancestors child rest)
  have p: "join ''/'' [path_prefix parent ancestors, get_name child]
             = path_prefix parent (ancestors @ [child])"
    by (simp add: path_prefix_def)
  have q: "path_prefix parent (ancestors @ [child]) = path_below parent ancestors child"
    by (simp add: path_prefix_def path_below_def)
  show ?case
  proof (cases "get_type child = GP_WIDGET_SECTION")
    case True
    with 3 have "\<forall>a \<in> set (ancestors @ [child]). get_type a = GP_WIDGET_SECTION" by simp
    from "3.IH"(1)[OF this] "3.IH"(2)[OF "3.prems"] True show ?thesis
      by (simp add: p described_def Let_def del: join.simps)
  next
    case False
    with "3.prems" have "described (ancestors, child)" by (simp add: described_def)
    with False "3.IH"(2)[OF "3.prems"] show ?thesis
      by (simp add: p q nothing_described_below Let_def del: join.simps)
  qed
qed




section \<open>What the steps of a run leave alone\<close>

lemma grows_refl [simp]: "grows w w"
  by (simp add: grows_def)

lemma grows_trans: "grows w w' \<Longrightarrow> grows w' w'' \<Longrightarrow> grows w w''"
  by (fastforce simp: grows_def)

lemma grows_write_log: "t \<noteq> success_line \<Longrightarrow> grows w (write_log t ns w)"
  by (simp add: grows_def separator_def success_line_def)

lemma grows_update [simp]:
  "grows w (w'\<lparr>device := d\<rparr>) = grows w w'"
  "grows w (w'\<lparr>gp_log_callback := b\<rparr>) = grows w w'"
  "grows w (w'\<lparr>files := fs\<rparr>) = grows w w'"
  by (simp_all add: grows_def)

lemma grows_calls: "grows w w' \<Longrightarrow> grows w (w'\<lparr>calls := calls w' @ evs\<rparr>)"
  by (auto simp: grows_def)

lemma grows_fold_gp_logging: "grows w (fold gp_logging msgs w)"
proof (induction msgs arbitrary: w)
  case Nil
  show ?case by simp
next
  case (Cons m msgs)
  have "grows w (gp_logging m w)"
    by (simp add: gp_logging_def grows_write_log success_line_def)
  with Cons[of "gp_logging m w"] show ?case
    by (auto intro: grows_trans)
qed

lemma tameI:
  "(\<And>w. files (snd (m w)) = files w) \<Longrightarrow> (\<And>w. grows w (snd (m w))) \<Longrightarrow> tame m"
  by (simp add: tame_def)

lemma tame_files: "tame m \<Longrightarrow> files (snd (m w)) = files w"
  by (simp add: tame_def)

lemma tame_grows: "tame m \<Longrightarrow> grows w (snd (m w))"
  by (simp add: tame_def)

lemma tame_bind: "tame m \<Longrightarrow> (\<And>a. tame (f a)) \<Longrightarrow> tame (py_bind m f)"
proof (rule tameI)
  fix w
  assume m: "tame m" and f: "\<And>a. tame (f a)"
  obtain r w' where mw: "m w = (r, w')" by (cases "m w")
  from tame_files[OF m, of w] tame_grows[OF m, of w] mw
  have w': "files w' = files w" "grows w w'" by auto
  show "files (snd (py_bind m f w)) = files w"
    using mw w' tame_files[OF f] by (cases r) (simp_all add: py_bind_def)
  show "grows w (snd (py_bind m f w))"
  proof (cases r)
    case (Inl e)
    with mw w' show ?thesis by (simp add: py_bind_def)
  next
    case (Inr a)
    have "grows w' (snd (f a w'))" using f by (rule tame_grows)
    with w'(2) have "grows w (snd (f a w'))" by (rule grows_trans)
    with Inr mw show ?thesis by (simp add: py_bind_def)
  qed
qed

lemma tame_log: "t \<noteq> success_line \<Longrightarrow> tame (py_log t ns)"
  by (simp add: tame_def py_log_def grows_write_log)

lemma tame_gp_call [simp]: "tame (gp_call c (f :: ('a, 'd) gp_call))"
proof (rule tameI)
  fix w :: "'d world"
  obtain msgs r d' where f: "f (device w) = (msgs, r, d')" by (cases "f (device w)")
  let ?w1 = "w\<lparr>device := d', calls := calls w @ [(c, returned r)]\<rparr>"
  have "grows w ?w1" by (simp add: grows_def)
  moreover have "grows ?w1 (fold gp_logging msgs ?w1)" by (rule grows_fold_gp_logging)
  ultimately have "grows w (fold gp_logging msgs ?w1)" by (rule grows_trans)
  with f \<open>grows w ?w1\<close> show "grows w (snd (gp_call c f w))"
    by (simp add: gp_call_def Let_def)
  from f show "files (snd (gp_call c f w)) = files w"
    by (simp add: gp_call_def Let_def)
qed

lemma tame_lib_call [simp]: "tame (lib_call c r)"
  by (simp add: tame_def lib_call_def grows_calls)

lemma tame_if: "tame m \<Longrightarrow> tame n \<Longrightarrow> tame (if c then m else n)"
  by simp

lemma tame_return [simp]: "tame (py_return a)"
  by (simp add: tame_def py_return_def)

lemma tame_raise [simp]: "tame (py_raise e)"
  by (simp add: tame_def py_raise_def)

lemma tame_get_child_by_name [simp]: "tame (get_child_by_name parent name)"
  by (simp add: get_child_by_name_def split: option.splits prod.splits)

lemma tame_set_value [simp]: "tame (set_value ev config child v)"
  by (simp add: set_value_def tame_bind)

lemma tame_set_config_value_try: "tame (set_config_value_try ev section option v)"
  unfolding set_config_value_try_def Let_def
  by (intro tame_bind tame_log tame_gp_call tame_get_child_by_name tame_set_value)
     (simp_all add: setting_line_def success_line_def invalid_line_def tame_log
        split: option.splits)

lemma tame_set_config_value [simp]: "tame (set_config_value ev section option v)"
proof (rule tameI)
  fix w
  obtain r w' where t: "set_config_value_try ev section option v w = (r, w')"
    by (cases "set_config_value_try ev section option v w")
  have "files (snd (set_config_value_try ev section option v w)) = files w"
       "grows w (snd (set_config_value_try ev section option v w))"
    using tame_set_config_value_try by (rule tame_files, rule tame_grows)
  with t have w': "files w' = files w" "grows w w'" by auto
  from t w' show "files (snd (set_config_value ev section option v w)) = files w"
    by (simp add: set_config_value_def split: sum.splits exn.splits)
  have "grows w' (write_log (unsupported_line section option v) False w')"
    by (simp add: grows_write_log unsupported_line_def success_line_def)
  with w'(2) have "grows w (write_log (unsupported_line section option v) False w')"
    by (rule grows_trans)
  with t w' show "grows w (snd (set_config_value ev section option v w))"
    by (simp add: set_config_value_def split: sum.splits exn.splits)
qed

lemma tame_get_config_value [simp]: "tame (get_config_value ev section option)"
proof (rule tameI)
  fix w
  let ?g = "gp_call CameraGetConfig (camera_get_config ev) w"
  obtain r w' where g: "?g = (r, w')" by (cases ?g)
  have "files (snd ?g) = files w" "grows w (snd ?g)"
    using tame_gp_call by (rule tame_files, rule tame_grows)
  with g have w': "files w' = files w" "grows w w'" by auto
  from g w' show "files (snd (get_config_value ev section option w)) = files w"
    by (simp add: get_config_value_run split: sum.splits option.splits)
  have "\<And>t. t \<noteq> success_line \<Longrightarrow> grows w (write_log t False w')"
    using w'(2) grows_write_log grows_trans by blast
  with g w' show "grows w (snd (get_config_value ev section option w))"
    by (simp add: get_config_value_run unknown_line_def getting_line_def success_line_def
          split: sum.splits option.splits)
qed

lemma print_widget_fields [simp]:
  "device (print_widget repr child path w) = device w"
  "gp_log_callback (print_widget repr child path w) = gp_log_callback w"
  "calls (print_widget repr child path w) = calls w"
  "files (print_widget repr child path w) = files w"
  by (simp_all add: print_widget_def Let_def)

lemma fold_print_widget_fields [simp]:
  "device (fold (\<lambda>d. print_widget repr (f d) (g d)) ds w) = device w"
  "gp_log_callback (fold (\<lambda>d. print_widget repr (f d) (g d)) ds w) = gp_log_callback w"
  "calls (fold (\<lambda>d. print_widget repr (f d) (g d)) ds w) = calls w"
  "files (fold (\<lambda>d. print_widget repr (f d) (g d)) ds w) = files w"
  by (induction ds arbitrary: w) simp_all

lemma print_config_eq_fold:
  "print_config repr config parent w =
     fold (\<lambda>d. print_widget repr (snd d) (path_below parent (fst d) (snd d)))
       (filter described (below [] config)) w"
  using print_config_fold(1)[of "[]" repr config parent w]
  by (simp add: path_prefix_def)

lemma print_config_fields [simp]:
  "device (print_config repr config parent w) = device w"
  "gp_log_callback (print_config repr config parent w) = gp_log_callback w"
  "calls (print_config repr config parent w) = calls w"
  "files (print_config repr config parent w) = files w"
  by (simp_all add: print_config_eq_fold)

lemma path_below_slash: "path_below [] ancestors child \<noteq> success_line"
  by (cases ancestors) (simp_all add: path_below_def success_line_def)

lemma grows_print_widget:
  "path \<noteq> success_line \<Longrightarrow> grows w (print_widget repr child path w)"
  by (simp add: print_widget_def Let_def grows_def success_line_def choices_line_def
        split: prod.splits)

lemma grows_fold_print_widget:
  "grows w (fold (\<lambda>d. print_widget repr (snd d) (path_below [] (fst d) (snd d))) ds w)"
proof (induction ds arbitrary: w)
  case Nil
  show ?case by simp
next
  case (Cons d ds)
  let ?w = "print_widget repr (snd d) (path_below [] (fst d) (snd d)) w"
  have "grows w ?w" by (simp add: grows_print_widget path_below_slash)
  with Cons[of ?w] show ?case by (auto intro: grows_trans)
qed

lemma tame_print_config [simp]: "tame (\<lambda>w. (Inr (), print_config repr config [] w))"
  by (simp add: tame_def) (simp add: print_config_eq_fold grows_fold_print_widget)

lemma tame_capture_and_download: "tame (capture_and_download ev)"
  unfolding capture_and_download_def
  by (intro tame_bind tame_log tame_gp_call tame_set_config_value tame_get_config_value
        tame_print_config tame_lib_call tame_if tame_return)
     (simp_all add: success_line_def)

lemma str_nat_digit: "\<exists>c cs. str_nat n = c # cs \<and> c \<in> set ''0123456789''"
proof (induction n rule: str_nat.induct)
  case (1 n)
  show ?case
  proof (cases "n < 10")
    case True
    then have "n < length ''0123456789''" by simp
    then have "''0123456789'' ! n \<in> set ''0123456789''" by (rule nth_mem)
    moreover have "str_nat n = [''0123456789'' ! n]"
      using True by (subst str_nat.simps) simp
    ultimately show ?thesis by blast
  next
    case False
    with 1 obtain c cs where "str_nat (n div 10) = c # cs" "c \<in> set ''0123456789''" by blast
    with False show ?thesis by (subst str_nat.simps) simp
  qed
qed

lemma format_02d_digit: "\<exists>c cs. format_02d n = c # cs \<and> c \<in> set ''0123456789''"
  using str_nat_digit[of n] by (auto simp: format_02d_def)

lemma index_line_not_success: "format_02d n @ rest \<noteq> success_line"
  using format_02d_digit[of n] by (auto simp: success_line_def)

lemma fold_write_log_fields [simp]:
  "device (fold (\<lambda>x. write_log (f x) ns) xs w) = device w"
  "gp_log_callback (fold (\<lambda>x. write_log (f x) ns) xs w) = gp_log_callback w"
  "calls (fold (\<lambda>x. write_log (f x) ns) xs w) = calls w"
  "files (fold (\<lambda>x. write_log (f x) ns) xs w) = files w"
  by (induction xs arbitrary: w) simp_all

lemma grows_fold_write_log:
  "(\<And>x. f x \<noteq> success_line) \<Longrightarrow> grows w (fold (\<lambda>x. write_log (f x) ns) xs w)"
proof (induction xs arbitrary: w)
  case Nil
  show ?case by simp
next
  case (Cons x xs)
  have "grows w (write_log (f x) ns w)" by (rule grows_write_log) (rule Cons.prems)
  moreover have "grows (write_log (f x) ns w) (fold (\<lambda>x. write_log (f x) ns) xs (write_log (f x) ns w))"
    by (rule Cons.IH) (rule Cons.prems)
  ultimately show ?case by (auto intro: grows_trans)
qed

lemma camera_line_not_success: "camera_line c \<noteq> success_line"
proof (cases c)
  case (fields index name addr)
  then show ?thesis by (simp add: index_line_not_success)
qed

lemma grows_log_cameras: "grows w (log_cameras cameras_list w)"
  unfolding log_cameras_def by (rule grows_fold_write_log) (rule camera_line_not_success)

lemma log_cameras_fields [simp]:
  "device (log_cameras cameras_list w) = device w"
  "gp_log_callback (log_cameras cameras_list w) = gp_log_callback w"
  "calls (log_cameras cameras_list w) = calls w"
  "files (log_cameras cameras_list w) = files w"
  by (simp_all add: log_cameras_def)

lemma grows_log_versions: "grows w (log_versions ev w)"
  by (simp add: log_versions_def grows_def success_line_def)

lemma log_versions_files [simp]: "files (log_versions ev w) = files w"
  by (simp add: log_versions_def)

lemma grows_log_library_version: "grows w (log_library_version ev w)"
proof (cases "gp_library_version ev")
  case None
  then show ?thesis by (simp add: log_library_version_def)
next
  case (Some info)
  show ?thesis
  proof (cases info)
    case Nil
    with Some show ?thesis by (simp add: log_library_version_def)
  next
    case (Cons v opts)
    let ?w = "write_log (''GPhoto2 version installed: '' @ v) False w"
    have "grows w ?w" by (rule grows_write_log) (simp add: success_line_def)
    moreover have "grows ?w (fold (\<lambda>opt. write_log (''  - '' @ opt) False) opts ?w)"
      by (rule grows_fold_write_log) (simp add: success_line_def)
    ultimately have "grows w (fold (\<lambda>opt. write_log (''  - '' @ opt) False) opts ?w)"
      by (rule grows_trans)
    with Some Cons show ?thesis by (simp add: log_library_version_def)
  qed
qed

lemma log_library_version_files [simp]: "files (log_library_version ev w) = files w"
  by (simp add: log_library_version_def split: option.splits list.splits)

lemma tame_camera_connected: "tame (camera_connected ev)"
  by (simp add: camera_connected_def tame_bind)

lemma tame_detect_cameras: "tame (detect_cameras ev)"
  unfolding detect_cameras_def
  by (intro tame_bind tame_gp_call tame_camera_connected tame_log)
     (simp_all add: tame_def success_line_def)

lemma tame_open_session: "tame (open_session ev)"
  unfolding open_session_def Let_def
  by (intro tame_bind tame_gp_call tame_log tame_return)
     (simp_all add: success_line_def preview_line_def)

lemma tame_start_session: "tame (start_session ev)"
proof (rule tameI)
  fix w
  let ?w1 = "log_versions ev w"
  let ?w1' = "log_library_version ev ?w1"
  have w1: "grows w ?w1" by (rule grows_log_versions)
  have w1': "grows w ?w1'" using w1 grows_log_library_version by (rule grows_trans)
  obtain r w2 where d: "detect_cameras ev ?w1' = (r, w2)" by (cases "detect_cameras ev ?w1'")
  have "files (snd (detect_cameras ev ?w1')) = files ?w1'" "grows ?w1' (snd (detect_cameras ev ?w1'))"
    using tame_detect_cameras by (rule tame_files, rule tame_grows)
  with d w1' have w2: "files w2 = files w" "grows w w2" by (auto intro: grows_trans)
  have "files (snd (start_session ev w)) = files w \<and> grows w (snd (start_session ev w))"
  proof (cases "gp_installed ev")
    case False
    have "grows w (write_log ''gPhoto2 not installed, cannot diagnose connected DSLR'' False ?w1)"
      using w1 by (rule grows_trans) (simp add: grows_write_log success_line_def)
    with False show ?thesis by (simp add: start_session_def Let_def)
  next
    case True
    show ?thesis
    proof (cases r)
      case (Inl e)
      with True d w2 show ?thesis by (simp add: start_session_def Let_def)
    next
      case (Inr cameras_list)
      show ?thesis
      proof (cases "cameras_list = []")
        case empty: True
        have "grows w (write_log ''No compatible DSLR camera detected'' False w2)"
          using w2(2) by (rule grows_trans) (simp add: grows_write_log success_line_def)
        with True d w2 Inr empty show ?thesis by (simp add: start_session_def Let_def)
      next
        case some: False
        let ?w2' = "log_cameras (sort_cameras cameras_list) w2"
        obtain r3 w3 where o: "open_session ev ?w2' = (r3, w3)" by (cases "open_session ev ?w2'")
        have "files (snd (open_session ev ?w2')) = files ?w2'"
             "grows ?w2' (snd (open_session ev ?w2'))"
          using tame_open_session by (rule tame_files, rule tame_grows)
        moreover have "grows w ?w2'"
          using w2(2) grows_log_cameras by (rule grows_trans)
        ultimately have "files w3 = files w" "grows w w3"
          using o w2(1) by (auto intro: grows_trans)
        with True d Inr some o show ?thesis
          by (cases r3) (simp_all add: start_session_def Let_def)
      qed
    qed
  qed
  then show "files (snd (start_session ev w)) = files w" "grows w (snd (start_session ev w))"
    by simp_all
qed

section \<open>Running \<^verbatim>\<open>main\<close>\<close>

lemma save_locally_grows: "grows w (snd (save_locally ev data w))"
  by (simp add: save_locally_def py_bind_def write_file_def image_open_def lib_call_def
        image_save_def grows_def split: prod.splits sum.splits)

lemma scripted_exercise_grows: "grows w (snd (scripted_exercise ev w))"
proof -
  obtain r w' where c: "capture_and_download ev w = (r, w')"
    by (cases "capture_and_download ev w")
  have "grows w (snd (capture_and_download ev w))"
    using tame_capture_and_download by (rule tame_grows)
  with c have e: "grows w w'" by simp
  show ?thesis
  proof (cases r)
    case (Inl ex)
    with c e show ?thesis by (simp add: scripted_exercise_def py_bind_def)
  next
    case (Inr data)
    from e save_locally_grows[of w' ev data] have "grows w (snd (save_locally ev data w'))"
      by (rule grows_trans)
    with Inr c show ?thesis by (simp add: scripted_exercise_def py_bind_def)
  qed
qed

lemma capture_test_calls: "\<exists>evs. calls (snd (capture_test ev cc w)) = calls w @ evs"
proof -
  obtain r w' where s: "scripted_exercise ev w = (r, w')" by (cases "scripted_exercise ev w")
  with scripted_exercise_grows[of w ev] have "\<exists>evs. calls w' = calls w @ evs"
    by (simp add: grows_def)
  with s show ?thesis
    by (cases r) (auto simp: capture_test_def)
qed

lemma close_session_run:
  "close_session ev error w =
     (case camera_exit ev (device w) of (msgs, r, d') \<Rightarrow>
        (let w1 = (if \<not> error then write_log success_line True w else w);
             w2 = w1\<lparr>gp_log_callback := False, device := d',
                     calls := calls w @ [(DelGpLogCallback, True), (CameraExit, returned r)]\<rparr>
         in case r of Inl e \<Rightarrow> (Uncaught (GPhoto2Error e), w2)
                    | Inr u \<Rightarrow> (Returned, closing_lines w2)))"
  by (simp add: close_session_def gp_call_def del_gp_log_callback_def Let_def gp_result_def
        split: prod.splits sum.splits)

lemma closing_lines_fields [simp]:
  "device (closing_lines w) = device w"
  "gp_log_callback (closing_lines w) = gp_log_callback w"
  "calls (closing_lines w) = calls w"
  "files (closing_lines w) = files w"
  by (simp_all add: closing_lines_def)

lemma unit_device [simp]: "(w :: unit world)\<lparr>device := ()\<rparr> = w"
  by (cases w) simp

lemma gp_call_succeeds:
  "gp_call c (succeeds a) w = (Inr a, w\<lparr>calls := calls w @ [(c, True)]\<rparr>)"
  by (simp add: gp_call_def succeeds_def gp_result_def returned_def Let_def)

lemma gp_call_fails:
  "gp_call c (fails e) w = (Inl (GPhoto2Error e), w\<lparr>calls := calls w @ [(c, False)]\<rparr>)"
  by (simp add: gp_call_def fails_def gp_result_def returned_def Let_def)

lemma camera_fields:
  "gp_installed (camera config) = True"
  "gp_library_version (camera config) = None"
  "gp_log_add_func (camera config) = succeeds ()"
  "has_gp_camera_autodetect (camera config) = True"
  "gp_camera_autodetect (camera config) = succeeds [(''Nikon'', ''usb:2''), (''Canon'', ''usb:1'')]"
  "camera_init (camera config) = succeeds ()"
  "camera_get_abilities (camera config) = succeeds 9"
  "camera_get_config (camera config) = succeeds config"
  "widget_set_value (camera config) = store_value"
  "camera_set_config (camera config) = (\<lambda>config. succeeds ())"
  "camera_capture_preview (camera config) = succeeds ()"
  "camera_capture (camera config) = succeeds (''/'', ''capt0000.jpg'')"
  "camera_file_get (camera config) = (\<lambda>folder name. succeeds (Inr ''JFIF''))"
  "camera_exit (camera config) = succeeds ()"
  "python_repr (camera config) = (\<lambda>s. SQ @ s @ SQ)"
  "Image_open (camera config) = (\<lambda>data. Inr (PilImage (Inr data)))"
  by (simp_all add: camera_def)

lemmas step_defs = py_bind_def py_log_def py_return_def gp_call_succeeds gp_call_fails
  get_config_value_run set_config_value_def set_config_value_try_run resolve_def lib_call_def
  gp_result_def returned_def Let_def

lemmas tree_defs = small_config_def node_def leaf_def iso_def store_value_def

lemma start_run:
  "start_session ev w = (Inr cc, w3) \<Longrightarrow>
   main ev w = close_session ev (fst (capture_test ev cc w3)) (snd (capture_test ev cc w3))"
  by (simp add: main_def split: prod.splits)

lemma abort_run:
  assumes "start_session ev w = (Inr True, w3)" and "scripted_exercise ev w3 = (Inl ex, w4)"
  shows "main ev w = close_session ev True (write_log (abort_line ex) True w4)"
  using assms by (simp add: start_run capture_test_def)

lemmas start_defs = start_session_def log_versions_def log_library_version_def
  detect_cameras_def camera_connected_def log_cameras_def sort_cameras_def open_session_def
  GP_OPERATION_CAPTURE_IMAGE_def GP_OPERATION_CAPTURE_PREVIEW_def step_defs camera_fields
  less_eq_char_def less_char_def

lemma start_session_camera:
  "fst (start_session (camera config) w) = Inr True"
  "calls (snd (start_session (camera config) w))
     = calls w @ [(GpLogAddFunc, True), (GpCameraAutodetect, True), (CameraInit, True),
                  (CameraGetAbilities, True)]"
  by (simp_all add: start_defs)

section \<open>The session is closed once it has been opened\<close>

text \<open>
  C1, as the code has it. For every run that gets through the opening of the session
  (\<^verbatim>\<open>camera.init()\<close> and \<^verbatim>\<open>camera.get_abilities()\<close> have returned): whatever happens in
  the capture test (it is skipped, it completes, or it aborts), the last two calls of the
  run are the removal of the logging hook and \<^verbatim>\<open>camera.exit()\<close>, and the hook is no longer
  registered at the end.
\<close>

theorem session_closed_once_opened:
  assumes "start_session ev w = (Inr capture_compat, w3)"
  shows "\<exists>mid b. calls (snd (main ev w))
                   = calls w3 @ mid @ [(DelGpLogCallback, True), (CameraExit, b)] \<and>
                 \<not> gp_log_callback (snd (main ev w))"
proof -
  obtain error w4 where c: "capture_test ev capture_compat w3 = (error, w4)"
    by (cases "capture_test ev capture_compat w3")
  with capture_test_calls[of ev capture_compat w3]
  obtain mid where "calls w4 = calls w3 @ mid" by auto
  with assms c show ?thesis
    by (auto simp: main_def close_session_run Let_def split: prod.splits sum.splits)
qed

theorem session_closed_once_opened_witness:
  "fst (start_session (camera small_config) fresh) = Inr True \<and>
   (\<exists>mid b. calls (snd (main (camera small_config) fresh))
      = [(GpLogAddFunc, True), (GpCameraAutodetect, True), (CameraInit, True),
         (CameraGetAbilities, True)]
        @ mid @ [(DelGpLogCallback, True), (CameraExit, b)]) \<and>
   \<not> gp_log_callback (snd (main (camera small_config) fresh))"
proof -
  let ?ev = "camera small_config"
  have s: "start_session ?ev fresh = (Inr True, snd (start_session ?ev fresh))"
    using start_session_camera(1)[of small_config fresh] by (simp add: prod_eq_iff)
  have "calls (snd (start_session ?ev fresh))
          = [(GpLogAddFunc, True), (GpCameraAutodetect, True), (CameraInit, True),
             (CameraGetAbilities, True)]"
    by (simp add: start_session_camera(2) fresh_def)
  with session_closed_once_opened [OF s] start_session_camera(1)[of small_config fresh]
  show ?thesis by simp
qed

text \<open>
  As stated, C1 fails when opening the session raises: \<^verbatim>\<open>camera.init()\<close> of line 169 is
  outside every \<^verbatim>\<open>try\<close>, the error leaves \<^verbatim>\<open>main\<close>, the hook stays registered and
  \<^verbatim>\<open>camera.exit()\<close> is never called.
\<close>

theorem session_left_open_counterexample:
  "fst (main no_session fresh) = Uncaught (GPhoto2Error ''[-105] Unknown model'') \<and>
   calls (snd (main no_session fresh))
     = [(GpLogAddFunc, True), (GpCameraAutodetect, True), (CameraInit, False)] \<and>
   gp_log_callback (snd (main no_session fresh))"
  by (simp add: main_def no_session_def start_defs fresh_def)

section \<open>An abort of the scripted exercise\<close>

lemmas exercise_defs = scripted_exercise_def capture_and_download_def save_locally_def
  write_file_def image_open_def image_save_def step_defs camera_fields tree_defs APPNAME_def

lemma no_capture_run:
  "fst (start_session no_capture w) = Inr True"
  "fst (scripted_exercise no_capture w) = Inl (GPhoto2Error ''[-7] I/O problem'')"
  "camera_exit no_capture = succeeds ()"
  by (simp_all add: no_capture_def start_defs exercise_defs)

lemma unplugged_run:
  "fst (start_session unplugged w) = Inr True"
  "fst (scripted_exercise unplugged w) = Inl (GPhoto2Error ''[-7] I/O problem'')"
  "camera_exit unplugged = fails ''[-7] I/O problem''"
  by (simp_all add: unplugged_def no_capture_def start_defs exercise_defs)

text \<open>
  C7, as the code has it. For every run in which a step of the scripted exercise raises
  (any step of the \<^verbatim>\<open>try\<close>, decoding the image included): the record written next is the
  \<open>ABORT\<close> line, in a new section of the log; no later step of the exercise runs, the
  only calls after the failure being the removal of the hook and \<^verbatim>\<open>camera.exit()\<close>;
  no file is touched after the failure; the \<open>SUCCESS\<close> line is written nowhere in the
  run; and the process exits with status 0 when \<^verbatim>\<open>camera.exit()\<close> returns, with status
  1 when it raises.
\<close>

theorem abort_skips_the_rest:
  assumes start: "start_session ev w = (Inr True, w3)"
      and abort: "scripted_exercise ev w3 = (Inl ex, w4)"
  shows "(\<exists>rest. logged (snd (main ev w))
                   = logged w4 @ [separator @ NL, abort_line ex @ NL] @ rest \<and>
                 success_line @ NL \<notin> set rest) \<and>
         success_line @ NL \<notin> set (drop (length (logged w)) (logged (snd (main ev w)))) \<and>
         calls (snd (main ev w))
           = calls w4 @ [(DelGpLogCallback, True),
                         (CameraExit, returned (fst (snd (camera_exit ev (device w4)))))] \<and>
         files (snd (main ev w)) = files w4 \<and>
         exit_status (fst (main ev w))
           = (if returned (fst (snd (camera_exit ev (device w4)))) then 0 else 1)"
proof -
  have "grows w (snd (start_session ev w))" using tame_start_session by (rule tame_grows)
  with start have "grows w w3" by simp
  moreover have "grows w3 (snd (scripted_exercise ev w3))" by (rule scripted_exercise_grows)
  with abort have "grows w3 w4" by simp
  ultimately have "grows w w4" by (rule grows_trans)
  then obtain ls where before: "logged w4 = logged w @ ls" "success_line @ NL \<notin> set ls"
    by (auto simp: grows_def)
  obtain msgs r d' where e: "camera_exit ev (device w4) = (msgs, r, d')"
    by (cases "camera_exit ev (device w4)")
  from e before show ?thesis
    by (cases r)
       (simp_all add: abort_run[OF start abort] close_session_run returned_def
          abort_line_def success_line_def closing_lines_def separator_def)
qed


theorem abort_skips_the_rest_witness:
  "fst (start_session no_capture fresh) = Inr True \<and>
   fst (scripted_exercise no_capture (snd (start_session no_capture fresh)))
     = Inl (GPhoto2Error ''[-7] I/O problem'') \<and>
   calls (snd (main no_capture fresh))
     = calls (snd (scripted_exercise no_capture (snd (start_session no_capture fresh))))
       @ [(DelGpLogCallback, True), (CameraExit, True)] \<and>
   exit_status (fst (main no_capture fresh)) = 0"
proof -
  let ?w3 = "snd (start_session no_capture fresh)"
  let ?w4 = "snd (scripted_exercise no_capture ?w3)"
  have s: "start_session no_capture fresh = (Inr True, ?w3)"
    using no_capture_run(1)[of fresh] by (simp add: prod_eq_iff)
  have x: "scripted_exercise no_capture ?w3 = (Inl (GPhoto2Error ''[-7] I/O problem''), ?w4)"
    using no_capture_run(2)[of ?w3] by (simp add: prod_eq_iff)
  from abort_skips_the_rest [OF s x] no_capture_run(1)[of fresh] no_capture_run(2)[of ?w3]
  show ?thesis
    by (simp add: no_capture_run(3) succeeds_def returned_def)
qed

text \<open>
  As stated, C7 fails on the exit status: \<^verbatim>\<open>camera.exit()\<close> of line 217 is outside every
  \<^verbatim>\<open>try\<close>. When the camera is unplugged during the capture, the capture raises, the
  abort is logged, and the error of \<^verbatim>\<open>camera.exit()\<close> then leaves \<^verbatim>\<open>main\<close>: the process
  ends with status 1.
\<close>

theorem abort_exit_status_counterexample:
  "fst (start_session unplugged fresh) = Inr True \<and>
   fst (scripted_exercise unplugged (snd (start_session unplugged fresh)))
     = Inl (GPhoto2Error ''[-7] I/O problem'') \<and>
   fst (main unplugged fresh) = Uncaught (GPhoto2Error ''[-7] I/O problem'') \<and>
   exit_status (fst (main unplugged fresh)) = 1"
proof -
  let ?w3 = "snd (start_session unplugged fresh)"
  let ?w4 = "snd (scripted_exercise unplugged ?w3)"
  have s: "start_session unplugged fresh = (Inr True, ?w3)"
    using unplugged_run(1)[of fresh] by (simp add: prod_eq_iff)
  have x: "scripted_exercise unplugged ?w3 = (Inl (GPhoto2Error ''[-7] I/O problem''), ?w4)"
    using unplugged_run(2)[of ?w3] by (simp add: prod_eq_iff)
  from abort_run [OF s x] unplugged_run(1)[of fresh] unplugged_run(2)[of ?w3]
  show ?thesis
    by (simp add: close_session_run unplugged_run(3) fails_def)
qed

section \<open>The two files of the capture\<close>

lemma close_session_files [simp]: "files (snd (close_session ev error w)) = files w"
  by (simp add: close_session_run Let_def split: prod.splits sum.splits)

lemma not_an_image_run:
  "fst (start_session not_an_image w) = Inr True"
  "fst (capture_and_download not_an_image w) = Inr ''JFIF''"
  "Image_open not_an_image ''JFIF'' = Inl ''cannot identify image file''"
  by (simp_all add: not_an_image_def start_defs exercise_defs)

lemma no_download_run:
  "fst (start_session no_download w) = Inr True"
  "fst (scripted_exercise no_download w) = Inl (GPhoto2Error ''[-108] File not found'')"
  "fst (capture_and_download no_download w) = Inl (GPhoto2Error ''[-108] File not found'')"
  "calls (snd (scripted_exercise no_download w))
     = calls w @ [(CameraGetConfig, True),
          (CameraGetConfig, True),
          (WidgetSetValue [0, 0] (PyStr ''100''), True),
          (CameraSetConfig
             (node ''main'' GP_WIDGET_WINDOW
                [node ''imgsettings'' GP_WIDGET_SECTION
                   [leaf ''iso'' GP_WIDGET_RADIO (PyStr ''100'') [''200'', ''400'']]]), True),
          (CameraGetConfig, True),
          (CameraGetConfig, True),
          (CameraCapturePreview, True),
          (CameraCapture, True),
          (CameraFileGet ''/'' ''capt0000.jpg'', False)]"
  "files (snd (scripted_exercise no_download w)) = files w"
  "camera_exit no_download = succeeds ()"
  by (simp_all add: no_download_def start_defs exercise_defs)

lemma start_session_files [simp]: "files (snd (start_session ev w)) = files w"
  using tame_start_session by (rule tame_files)

text \<open>
  C10, as the code has it. The two files are not written together. For every run that
  reaches the capture test on a camera able to capture: when the bytes of the capture have
  been downloaded and the imaging library cannot open them, the run ends with the raw
  file written, holding these bytes, and with no other file touched, the image file
  among them; and when a step up to and including the download raises, the run ends
  with no file touched at all.
\<close>

theorem artifacts_after_download:
  assumes start: "start_session ev w = (Inr True, w3)"
  shows "(\<forall>data w4 m.
            capture_and_download ev w3 = (Inr data, w4) \<and> Image_open ev data = Inl m \<longrightarrow>
            files (snd (main ev w)) = (files w)(APPNAME @ ''.raw'' \<mapsto> data)) \<and>
         (\<forall>ex w4.
            capture_and_download ev w3 = (Inl ex, w4) \<longrightarrow>
            files (snd (main ev w)) = files w)"
proof -
  have "files (snd (start_session ev w)) = files w" using tame_start_session by (rule tame_files)
  with start have w3: "files w3 = files w" by simp
  have c: "files (snd (capture_and_download ev w3)) = files w3"
    using tame_capture_and_download by (rule tame_files)
  have m: "main ev w = close_session ev (fst (capture_test ev True w3)) (snd (capture_test ev True w3))"
    using start by (rule start_run)
  show ?thesis
  proof (intro conjI allI impI)
    fix data w4 m'
    assume a: "capture_and_download ev w3 = (Inr data, w4) \<and> Image_open ev data = Inl m'"
    with c w3 have "files w4 = files w" by simp
    with a show "files (snd (main ev w)) = (files w)(APPNAME @ ''.raw'' \<mapsto> data)"
      by (simp add: m capture_test_def scripted_exercise_def save_locally_def py_bind_def
            write_file_def image_open_def lib_call_def)
  next
    fix ex w4
    assume a: "capture_and_download ev w3 = (Inl ex, w4)"
    with c w3 have "files w4 = files w" by simp
    with a show "files (snd (main ev w)) = files w"
      by (simp add: m capture_test_def scripted_exercise_def py_bind_def)
  qed
qed

theorem artifacts_after_download_witness:
  "fst (start_session not_an_image fresh) = Inr True \<and>
   fst (capture_and_download not_an_image (snd (start_session not_an_image fresh))) = Inr ''JFIF'' \<and>
   Image_open not_an_image ''JFIF'' = Inl ''cannot identify image file'' \<and>
   files (snd (main not_an_image fresh)) = [''diagnostic.raw'' \<mapsto> ''JFIF''] \<and>
   fst (start_session no_download fresh) = Inr True \<and>
   fst (capture_and_download no_download (snd (start_session no_download fresh)))
     = Inl (GPhoto2Error ''[-108] File not found'') \<and>
   files (snd (main no_download fresh)) = Map.empty"
proof -
  let ?w3 = "snd (start_session not_an_image fresh)"
  let ?w4 = "snd (capture_and_download not_an_image ?w3)"
  have s: "start_session not_an_image fresh = (Inr True, ?w3)"
    using not_an_image_run(1)[of fresh] by (simp add: prod_eq_iff)
  have c: "capture_and_download not_an_image ?w3 = (Inr ''JFIF'', ?w4)"
    using not_an_image_run(2)[of ?w3] by (simp add: prod_eq_iff)
  from artifacts_after_download [OF s] c not_an_image_run(3)
  have a: "files (snd (main not_an_image fresh)) = (files fresh)(APPNAME @ ''.raw'' \<mapsto> ''JFIF'')"
    by blast
  let ?v3 = "snd (start_session no_download fresh)"
  let ?v4 = "snd (capture_and_download no_download ?v3)"
  have s': "start_session no_download fresh = (Inr True, ?v3)"
    using no_download_run(1)[of fresh] by (simp add: prod_eq_iff)
  have c': "capture_and_download no_download ?v3
              = (Inl (GPhoto2Error ''[-108] File not found''), ?v4)"
    using no_download_run(3)[of ?v3] by (simp add: prod_eq_iff)
  from artifacts_after_download [OF s'] c'
  have b: "files (snd (main no_download fresh)) = files fresh"
    by blast
  from a b not_an_image_run(1)[of fresh] not_an_image_run(2)[of ?w3] not_an_image_run(3)
    no_download_run(1)[of fresh] no_download_run(3)[of ?v3]
  show ?thesis by (simp add: fresh_def APPNAME_def)
qed

text \<open>
  As stated, C10 fails in its last part: a failure of the download, which comes after
  the capture (f), leaves both files absent as well.
\<close>

theorem download_failure_counterexample:
  "(CameraCapture, True) \<in> set (calls (snd (main no_download fresh))) \<and>
   (CameraFileGet ''/'' ''capt0000.jpg'', False) \<in> set (calls (snd (main no_download fresh))) \<and>
   files (snd (main no_download fresh)) ''diagnostic.raw'' = None \<and>
   files (snd (main no_download fresh)) ''diagnostic.jpg'' = None"
proof -
  let ?v3 = "snd (start_session no_download fresh)"
  let ?v4 = "snd (scripted_exercise no_download ?v3)"
  have s: "start_session no_download fresh = (Inr True, ?v3)"
    using no_download_run(1)[of fresh] by (simp add: prod_eq_iff)
  have x: "scripted_exercise no_download ?v3 = (Inl (GPhoto2Error ''[-108] File not found''), ?v4)"
    using no_download_run(2)[of ?v3] by (simp add: prod_eq_iff)
  have m: "main no_download fresh
             = close_session no_download True
                 (write_log (abort_line (GPhoto2Error ''[-108] File not found'')) True ?v4)"
    using s x by (rule abort_run)
  have f: "files fresh = Map.empty" by (simp add: fresh_def)
  show ?thesis
    by (simp add: m close_session_run no_download_run(4,5,6) f succeeds_def Let_def)
qed

section \<open>The preview flag\<close>

text \<open>
  Nothing in the script reads the log or the console back, so what was written earlier
  cannot change what a later step does. This is shown for each piece of the script
  from line 177 on.
\<close>

lemma blindI:
  "(\<And>l1 l2 o1 o2 w1 w2. same_but l1 l2 o1 o2 w1 w2 \<Longrightarrow>
      fst (m w1) = fst (m w2) \<and> same_but l1 l2 o1 o2 (snd (m w1)) (snd (m w2))) \<Longrightarrow> blind m"
  by (simp add: blind_def)

lemma blindD:
  "blind m \<Longrightarrow> same_but l1 l2 o1 o2 (w1 :: 'd world) w2 \<Longrightarrow>
     fst (m w1) = fst (m w2) \<and> same_but l1 l2 o1 o2 (snd (m w1)) (snd (m w2))"
  by (simp add: blind_def)

lemma same_but_write_log:
  "same_but l1 l2 o1 o2 w1 w2 \<Longrightarrow> same_but l1 l2 o1 o2 (write_log t ns w1) (write_log t ns w2)"
  by (auto simp: same_but_def logged_def)

lemma same_but_update:
  "same_but l1 l2 o1 o2 w1 w2 \<Longrightarrow>
     same_but l1 l2 o1 o2 (w1\<lparr>device := d, calls := cs\<rparr>) (w2\<lparr>device := d, calls := cs\<rparr>)"
  "same_but l1 l2 o1 o2 w1 w2 \<Longrightarrow> same_but l1 l2 o1 o2 (w1\<lparr>calls := cs\<rparr>) (w2\<lparr>calls := cs\<rparr>)"
  "same_but l1 l2 o1 o2 w1 w2 \<Longrightarrow> same_but l1 l2 o1 o2 (w1\<lparr>files := fs\<rparr>) (w2\<lparr>files := fs\<rparr>)"
  "same_but l1 l2 o1 o2 w1 w2 \<Longrightarrow>
     same_but l1 l2 o1 o2 (w1\<lparr>gp_log_callback := b\<rparr>) (w2\<lparr>gp_log_callback := b\<rparr>)"
  "same_but l1 l2 o1 o2 w1 w2 \<Longrightarrow>
     same_but l1 l2 o1 o2 (w1\<lparr>files := fs, calls := cs\<rparr>) (w2\<lparr>files := fs, calls := cs\<rparr>)"
  "same_but l1 l2 o1 o2 w1 w2 \<Longrightarrow>
     same_but l1 l2 o1 o2 (w1\<lparr>gp_log_callback := b, device := d, calls := cs\<rparr>)
       (w2\<lparr>gp_log_callback := b, device := d, calls := cs\<rparr>)"
  by (simp_all add: same_but_def)

lemma same_but_fields:
  "same_but l1 l2 o1 o2 w1 w2 \<Longrightarrow> device w1 = device w2"
  "same_but l1 l2 o1 o2 w1 w2 \<Longrightarrow> gp_log_callback w1 = gp_log_callback w2"
  "same_but l1 l2 o1 o2 w1 w2 \<Longrightarrow> calls w1 = calls w2"
  "same_but l1 l2 o1 o2 w1 w2 \<Longrightarrow> files w1 = files w2"
  by (simp_all add: same_but_def)

lemma same_but_fold_write_log:
  "same_but l1 l2 o1 o2 w1 w2 \<Longrightarrow>
     same_but l1 l2 o1 o2 (fold (\<lambda>x. write_log (f x) ns) xs w1) (fold (\<lambda>x. write_log (f x) ns) xs w2)"
  by (induction xs arbitrary: w1 w2) (simp_all add: same_but_write_log)

lemma same_but_fold_gp_logging:
  "same_but l1 l2 o1 o2 w1 w2 \<Longrightarrow> same_but l1 l2 o1 o2 (fold gp_logging msgs w1) (fold gp_logging msgs w2)"
  by (induction msgs arbitrary: w1 w2) (simp_all add: same_but_write_log gp_logging_def)

lemma blind_bind:
  "blind (m :: ('a, 'd) py) \<Longrightarrow> (\<And>a. blind (f a)) \<Longrightarrow> blind (py_bind m f)"
proof (rule blindI)
  fix l1 l2 o1 o2 and w1 w2 :: "'d world"
  assume m: "blind m" and f: "\<And>a. blind (f a)" and s: "same_but l1 l2 o1 o2 w1 w2"
  obtain r1 v1 where m1: "m w1 = (r1, v1)" by (cases "m w1")
  obtain r2 v2 where m2: "m w2 = (r2, v2)" by (cases "m w2")
  from blindD[OF m s] m1 m2 have r: "r2 = r1" and s': "same_but l1 l2 o1 o2 v1 v2" by simp_all
  show "fst (py_bind m f w1) = fst (py_bind m f w2) \<and>
        same_but l1 l2 o1 o2 (snd (py_bind m f w1)) (snd (py_bind m f w2))"
  proof (cases r1)
    case (Inl e)
    with m1 m2 r have "py_bind m f w1 = (Inl e, v1)" "py_bind m f w2 = (Inl e, v2)"
      by (simp_all add: py_bind_Inl)
    with s' show ?thesis by simp
  next
    case (Inr a)
    with m1 m2 r have "py_bind m f w1 = f a v1" "py_bind m f w2 = f a v2"
      by (simp_all add: py_bind_Inr)
    with blindD[OF f s', of a] show ?thesis by simp
  qed
qed

lemma blind_return [simp]: "blind (py_return a)"
  by (simp add: blind_def py_return_def)

lemma blind_raise [simp]: "blind (py_raise e)"
  by (simp add: blind_def py_raise_def)

lemma blind_log [simp]: "blind (py_log t ns)"
  by (simp add: blind_def py_log_def same_but_write_log)

lemma blind_lib_call [simp]: "blind (lib_call c r)"
  by (simp add: blind_def lib_call_def same_but_fields same_but_update)

lemma blind_gp_call [simp]: "blind (gp_call c (f :: ('a, 'd) gp_call))"
proof (rule blindI)
  fix l1 l2 o1 o2 and w1 w2 :: "'d world"
  assume s: "same_but l1 l2 o1 o2 w1 w2"
  obtain msgs r d' where f: "f (device w1) = (msgs, r, d')" by (cases "f (device w1)")
  with s have f': "f (device w2) = (msgs, r, d')" by (simp add: same_but_fields)
  from s f f' show "fst (gp_call c f w1) = fst (gp_call c f w2) \<and>
        same_but l1 l2 o1 o2 (snd (gp_call c f w1)) (snd (gp_call c f w2))"
    by (simp add: gp_call_def Let_def same_but_fields same_but_update same_but_fold_gp_logging)
qed

lemma blind_if: "blind m \<Longrightarrow> blind n \<Longrightarrow> blind (if c then m else n)"
  by simp

lemma blind_get_child_by_name [simp]: "blind (get_child_by_name parent name)"
  by (simp add: get_child_by_name_def split: option.splits prod.splits)

lemma blind_set_value [simp]: "blind (set_value ev config child v)"
  by (simp add: set_value_def blind_bind)

lemma blind_set_config_value_try: "blind (set_config_value_try ev section option v)"
  unfolding set_config_value_try_def Let_def
  by (intro blind_bind blind_log blind_gp_call blind_get_child_by_name blind_set_value)
     (simp split: option.splits)

lemma blind_handler:
  assumes "blind (m :: ('a, 'd) py)"
  shows "blind (\<lambda>w. case m w of
                       (Inl (GPhoto2Error e), w') \<Rightarrow> (Inr a, write_log t False w')
                     | r \<Rightarrow> r)"
proof (rule blindI)
  fix l1 l2 o1 o2 and w1 w2 :: "'d world"
  assume s: "same_but l1 l2 o1 o2 w1 w2"
  obtain r1 v1 where m1: "m w1 = (r1, v1)" by (cases "m w1")
  obtain r2 v2 where m2: "m w2 = (r2, v2)" by (cases "m w2")
  from blindD[OF assms s] m1 m2 have r: "r2 = r1" and s': "same_but l1 l2 o1 o2 v1 v2" by simp_all
  from m1 m2 r s' same_but_write_log[OF s', of t False]
  show "fst (case m w1 of (Inl (GPhoto2Error e), w') \<Rightarrow> (Inr a, write_log t False w') | r \<Rightarrow> r)
          = fst (case m w2 of (Inl (GPhoto2Error e), w') \<Rightarrow> (Inr a, write_log t False w') | r \<Rightarrow> r)
        \<and> same_but l1 l2 o1 o2
            (snd (case m w1 of (Inl (GPhoto2Error e), w') \<Rightarrow> (Inr a, write_log t False w') | r \<Rightarrow> r))
            (snd (case m w2 of (Inl (GPhoto2Error e), w') \<Rightarrow> (Inr a, write_log t False w') | r \<Rightarrow> r))"
    by (simp split: sum.splits exn.splits)
qed

lemma blind_set_config_value [simp]: "blind (set_config_value ev section option v)"
proof -
  have "set_config_value ev section option v
          = (\<lambda>w. case set_config_value_try ev section option v w of
                    (Inl (GPhoto2Error e), w') \<Rightarrow>
                      (Inr (), write_log (unsupported_line section option v) False w')
                  | r \<Rightarrow> r)"
    by (rule ext) (simp add: set_config_value_def)
  then show ?thesis using blind_handler[OF blind_set_config_value_try] by simp
qed

lemma blind_get_config_value_try: "blind (get_config_value_try ev section option)"
  unfolding get_config_value_try_def Let_def
  by (intro blind_bind blind_log blind_gp_call blind_get_child_by_name blind_return)

lemma blind_get_config_value [simp]: "blind (get_config_value ev section option)"
proof -
  have "get_config_value ev section option
          = (\<lambda>w. case get_config_value_try ev section option w of
                    (Inl (GPhoto2Error e), w') \<Rightarrow>
                      (Inr PyNone, write_log (unknown_line section option) False w')
                  | r \<Rightarrow> r)"
    by (rule ext) (simp add: get_config_value_def)
  then show ?thesis using blind_handler[OF blind_get_config_value_try] by simp
qed

lemma same_but_print_widget:
  "same_but l1 l2 o1 o2 w1 w2 \<Longrightarrow>
     same_but l1 l2 o1 o2 (print_widget repr child path w1) (print_widget repr child path w2)"
  by (simp add: print_widget_def Let_def same_but_write_log)

lemma same_but_fold_print_widget:
  "same_but l1 l2 o1 o2 w1 w2 \<Longrightarrow>
     same_but l1 l2 o1 o2 (fold (\<lambda>d. print_widget repr (f d) (g d)) ds w1)
       (fold (\<lambda>d. print_widget repr (f d) (g d)) ds w2)"
  by (induction ds arbitrary: w1 w2) (simp_all add: same_but_print_widget)

lemma blind_print_config [simp]: "blind (\<lambda>w. (Inr (), print_config repr config parent w))"
  by (simp add: blind_def print_config_eq_fold same_but_fold_print_widget)

lemma blind_capture_and_download: "blind (capture_and_download ev)"
  unfolding capture_and_download_def
  by (intro blind_bind blind_log blind_gp_call blind_set_config_value blind_get_config_value
        blind_print_config blind_lib_call blind_if blind_return)

lemma blind_write_file [simp]: "blind (write_file name data)"
  by (simp add: blind_def write_file_def same_but_fields same_but_update)

lemma blind_image_open [simp]: "blind (image_open ev data)"
  by (simp add: image_open_def)

lemma blind_image_save [simp]: "blind (image_save img name)"
  by (simp add: blind_def image_save_def same_but_fields same_but_update
        split: sum.splits prod.splits)

lemma blind_scripted_exercise: "blind (scripted_exercise ev)"
  unfolding scripted_exercise_def save_locally_def
  by (intro blind_bind blind_capture_and_download blind_write_file blind_image_open
        blind_image_save)

lemma blind_rest_of_main: "blind (rest_of_main (ev :: 'd env) capture_compat)"
proof (rule blindI)
  fix l1 l2 o1 o2 and w1 w2 :: "'d world"
  assume s: "same_but l1 l2 o1 o2 w1 w2"
  obtain r1 v1 where x1: "scripted_exercise ev w1 = (r1, v1)" by (cases "scripted_exercise ev w1")
  obtain r2 v2 where x2: "scripted_exercise ev w2 = (r2, v2)" by (cases "scripted_exercise ev w2")
  from blindD[OF blind_scripted_exercise s, of ev] x1 x2
  have r: "r2 = r1" and s': "same_but l1 l2 o1 o2 v1 v2" by simp_all
  have "\<exists>error u1 u2. capture_test ev capture_compat w1 = (error, u1) \<and>
          capture_test ev capture_compat w2 = (error, u2) \<and> same_but l1 l2 o1 o2 u1 u2"
  proof (cases capture_compat)
    case False
    with s show ?thesis by (auto simp: capture_test_def)
  next
    case True
    show ?thesis
    proof (cases r1)
      case (Inl ex)
      with True x1 x2 r same_but_write_log[OF s', of "abort_line ex" True] show ?thesis
        by (auto simp: capture_test_def)
    next
      case (Inr u)
      with True x1 x2 r s' show ?thesis by (auto simp: capture_test_def)
    qed
  qed
  then obtain error u1 u2 where c: "capture_test ev capture_compat w1 = (error, u1)"
      "capture_test ev capture_compat w2 = (error, u2)" "same_but l1 l2 o1 o2 u1 u2"
    by blast
  obtain msgs r d' where e: "camera_exit ev (device u1) = (msgs, r, d')"
    by (cases "camera_exit ev (device u1)")
  with c(3) have e': "camera_exit ev (device u2) = (msgs, r, d')"
    by (simp add: same_but_fields)
  have k: "same_but l1 l2 o1 o2 (closing_lines a) (closing_lines b)"
    if "same_but l1 l2 o1 o2 a b" for a b :: "'d world"
    using that by (simp add: closing_lines_def same_but_write_log)
  let ?a = "if \<not> error then write_log success_line True u1 else u1"
  let ?b = "if \<not> error then write_log success_line True u2 else u2"
  have "same_but l1 l2 o1 o2 ?a ?b" using c(3) by (simp add: same_but_write_log)
  then have u: "same_but l1 l2 o1 o2
      (?a\<lparr>gp_log_callback := False, device := d',
           calls := calls u1 @ [(DelGpLogCallback, True), (CameraExit, returned r)]\<rparr>)
      (?b\<lparr>gp_log_callback := False, device := d',
           calls := calls u1 @ [(DelGpLogCallback, True), (CameraExit, returned r)]\<rparr>)"
    by (rule same_but_update)
  from c(3) have cs: "calls u2 = calls u1" by (simp add: same_but_fields)
  from c e e' u k[OF u] cs
  show "fst (rest_of_main ev capture_compat w1) = fst (rest_of_main ev capture_compat w2) \<and>
        same_but l1 l2 o1 o2 (snd (rest_of_main ev capture_compat w1))
          (snd (rest_of_main ev capture_compat w2))"
    by (cases r) (simp_all add: rest_of_main_def close_session_run Let_def)
qed

text \<open>
  The preview bit of the abilities is read in one place only, line 171. A run on an
  environment with the bit set by hand is the run on the environment itself up to the
  line that logs the flag.
\<close>

lemma main_rest:
  "main ev w = (case start_session ev w of
                  (Inl out, w') \<Rightarrow> (out, w')
                | (Inr capture_compat, w3) \<Rightarrow> rest_of_main ev capture_compat w3)"
  by (simp add: main_def rest_of_main_def split: prod.splits sum.splits)

lemma with_preview_fields [simp]:
  "pibooth_version (with_preview p ev) = pibooth_version ev"
  "friendly_names (with_preview p ev) = friendly_names ev"
  "gp_installed (with_preview p ev) = gp_installed ev"
  "gp_library_version (with_preview p ev) = gp_library_version ev"
  "gp_log_add_func (with_preview p ev) = gp_log_add_func ev"
  "has_gp_camera_autodetect (with_preview p ev) = has_gp_camera_autodetect ev"
  "gp_camera_autodetect (with_preview p ev) = gp_camera_autodetect ev"
  "port_info_list_load (with_preview p ev) = port_info_list_load ev"
  "abilities_list_load (with_preview p ev) = abilities_list_load ev"
  "abilities_list_detect (with_preview p ev) = abilities_list_detect ev"
  "camera_init (with_preview p ev) = camera_init ev"
  "camera_get_config (with_preview p ev) = camera_get_config ev"
  "widget_set_value (with_preview p ev) = widget_set_value ev"
  "camera_set_config (with_preview p ev) = camera_set_config ev"
  "camera_capture_preview (with_preview p ev) = camera_capture_preview ev"
  "camera_capture (with_preview p ev) = camera_capture ev"
  "camera_file_get (with_preview p ev) = camera_file_get ev"
  "camera_exit (with_preview p ev) = camera_exit ev"
  "python_repr (with_preview p ev) = python_repr ev"
  "Image_open (with_preview p ev) = Image_open ev"
  by (simp_all add: with_preview_def)

lemma set_config_value_with_preview [simp]:
  "set_config_value (with_preview p ev) = set_config_value ev"
  by (intro ext)
     (simp add: set_config_value_def set_config_value_try_def set_value_def
        cong: if_cong option.case_cong)

lemma get_config_value_with_preview [simp]:
  "get_config_value (with_preview p ev) = get_config_value ev"
  by (intro ext) (simp add: get_config_value_def get_config_value_try_def)

lemma save_locally_with_preview [simp]:
  "save_locally (with_preview p ev) = save_locally ev"
  by (intro ext) (simp add: save_locally_def image_open_def)

lemma capture_and_download_with_preview [simp]:
  "capture_and_download (with_preview p ev) = capture_and_download ev"
  by (simp add: capture_and_download_def cong: if_cong)

lemma scripted_exercise_with_preview [simp]:
  "scripted_exercise (with_preview p ev) = scripted_exercise ev"
  by (simp add: scripted_exercise_def)

lemma rest_of_main_with_preview:
  "rest_of_main (with_preview p ev) capture_compat w = rest_of_main ev capture_compat w"
  by (simp add: rest_of_main_def capture_test_def close_session_def)

lemma or_and_same: "(a OR b) AND b = (b :: int)"
  by (auto simp: bit_eq_iff bit_and_iff bit_or_iff)

lemma and_not_and_same: "(a AND NOT b) AND b = (0 :: int)"
  by (auto simp: bit_eq_iff bit_and_iff bit_not_iff)

lemma or_and_other: "b AND c = 0 \<Longrightarrow> (a OR b) AND c = a AND (c :: int)"
  by (auto simp: bit_eq_iff bit_and_iff bit_or_iff)

lemma and_not_and_other: "b AND c = 0 \<Longrightarrow> (a AND NOT b) AND c = a AND (c :: int)"
  by (auto simp: bit_eq_iff bit_and_iff bit_not_iff)

lemma preview_bit:
  "(GP_OPERATION_CAPTURE_PREVIEW
      = (operations OR GP_OPERATION_CAPTURE_PREVIEW) AND GP_OPERATION_CAPTURE_PREVIEW)"
  "\<not> (GP_OPERATION_CAPTURE_PREVIEW
      = (operations AND NOT GP_OPERATION_CAPTURE_PREVIEW) AND GP_OPERATION_CAPTURE_PREVIEW)"
  "(operations OR GP_OPERATION_CAPTURE_PREVIEW) AND GP_OPERATION_CAPTURE_IMAGE
      = operations AND GP_OPERATION_CAPTURE_IMAGE"
  "(operations AND NOT GP_OPERATION_CAPTURE_PREVIEW) AND GP_OPERATION_CAPTURE_IMAGE
      = operations AND GP_OPERATION_CAPTURE_IMAGE"
proof -
  have z: "GP_OPERATION_CAPTURE_PREVIEW AND GP_OPERATION_CAPTURE_IMAGE = 0"
    by (simp add: GP_OPERATION_CAPTURE_PREVIEW_def GP_OPERATION_CAPTURE_IMAGE_def)
  show "(GP_OPERATION_CAPTURE_PREVIEW
      = (operations OR GP_OPERATION_CAPTURE_PREVIEW) AND GP_OPERATION_CAPTURE_PREVIEW)"
    by (simp add: or_and_same)
  show "\<not> (GP_OPERATION_CAPTURE_PREVIEW
      = (operations AND NOT GP_OPERATION_CAPTURE_PREVIEW) AND GP_OPERATION_CAPTURE_PREVIEW)"
    by (simp add: and_not_and_same) (simp add: GP_OPERATION_CAPTURE_PREVIEW_def)
  show "(operations OR GP_OPERATION_CAPTURE_PREVIEW) AND GP_OPERATION_CAPTURE_IMAGE
      = operations AND GP_OPERATION_CAPTURE_IMAGE"
    using z by (rule or_and_other)
  show "(operations AND NOT GP_OPERATION_CAPTURE_PREVIEW) AND GP_OPERATION_CAPTURE_IMAGE
      = operations AND GP_OPERATION_CAPTURE_IMAGE"
    using z by (rule and_not_and_other)
qed

lemma camera_connected_with_preview [simp]:
  "camera_connected (with_preview p ev) = camera_connected ev"
  by (simp add: camera_connected_def)

lemma detect_cameras_with_preview [simp]:
  "detect_cameras (with_preview p ev) = detect_cameras ev"
  by (simp add: detect_cameras_def)

lemma log_versions_with_preview [simp]:
  "log_versions (with_preview p ev) = log_versions ev"
  by (intro ext) (simp add: log_versions_def)

lemma log_library_version_with_preview [simp]:
  "log_library_version (with_preview p ev) = log_library_version ev"
  by (intro ext) (simp add: log_library_version_def)

lemma get_abilities_with_preview:
  "gp_call CameraGetAbilities (camera_get_abilities (with_preview p ev)) w =
     (case gp_call CameraGetAbilities (camera_get_abilities ev) w of
        (r, w') \<Rightarrow>
          (map_sum id
             (\<lambda>operations.
                if p (device w)
                then operations OR GP_OPERATION_CAPTURE_PREVIEW
                else operations AND NOT GP_OPERATION_CAPTURE_PREVIEW) r, w'))"
  by (simp add: gp_call_def with_preview_def gp_result_def returned_def Let_def
        split: prod.splits sum.splits)

lemma open_session_with_preview:
  "\<exists>r. \<forall>p. open_session (with_preview p ev) w =
     (case r of
        Inl (e, w') \<Rightarrow> (Inl e, w')
      | Inr (c, d, w2) \<Rightarrow>
          (Inr c, write_log (''* Capture compatible: '' @ str_bool c) False
                    (write_log (preview_line (p d)) False w2)))"
proof -
  obtain r1 w1 where i: "gp_call CameraInit (camera_init ev)
      (write_log ''Stating diagnostic of connected DSLR camera'' True w) = (r1, w1)"
    by (cases "gp_call CameraInit (camera_init ev)
      (write_log ''Stating diagnostic of connected DSLR camera'' True w)")
  obtain r2 w2 where a: "gp_call CameraGetAbilities (camera_get_abilities ev) w1 = (r2, w2)"
    by (cases "gp_call CameraGetAbilities (camera_get_abilities ev) w1")
  show ?thesis
  proof (cases r1)
    case (Inl e)
    with i have "\<forall>p. open_session (with_preview p ev) w = (Inl e, w1)"
      by (simp add: open_session_def py_bind_def py_log_def)
    then show ?thesis by (intro exI[of _ "Inl (e, w1)"]) simp
  next
    case u: (Inr u)
    show ?thesis
    proof (cases r2)
      case (Inl e)
      with i u a have "\<forall>p. open_session (with_preview p ev) w = (Inl e, w2)"
        by (simp add: open_session_def py_bind_def py_log_def get_abilities_with_preview)
      then show ?thesis by (intro exI[of _ "Inl (e, w2)"]) simp
    next
      case (Inr operations)
      let ?c = "GP_OPERATION_CAPTURE_IMAGE = operations AND GP_OPERATION_CAPTURE_IMAGE"
      from i u a Inr have "\<forall>p. open_session (with_preview p ev) w =
          (Inr ?c, write_log (''* Capture compatible: '' @ str_bool ?c) False
                    (write_log (preview_line (p (device w1))) False w2))"
        by (simp add: open_session_def py_bind_def py_log_def py_return_def
              get_abilities_with_preview preview_bit Let_def)
      then show ?thesis by (intro exI[of _ "Inr (?c, device w1, w2)"]) simp
    qed
  qed
qed

lemma start_session_with_preview:
  "\<exists>r. \<forall>p. start_session (with_preview p ev) w =
     (case r of
        Inl (out, w') \<Rightarrow> (Inl out, w')
      | Inr (c, d, w2) \<Rightarrow>
          (Inr c, write_log (''* Capture compatible: '' @ str_bool c) False
                    (write_log (preview_line (p d)) False w2)))"
proof (cases "gp_installed ev")
  case False
  then have "\<forall>p. start_session (with_preview p ev) w =
      (Inl (SystemExit 1),
       write_log ''gPhoto2 not installed, cannot diagnose connected DSLR'' False
         (log_versions ev w))"
    by (simp add: start_session_def)
  then show ?thesis
    by (intro exI[of _ "Inl (SystemExit 1,
       write_log ''gPhoto2 not installed, cannot diagnose connected DSLR'' False
         (log_versions ev w))"]) simp
next
  case True
  obtain r w2 where d: "detect_cameras ev (log_library_version ev (log_versions ev w)) = (r, w2)"
    by (cases "detect_cameras ev (log_library_version ev (log_versions ev w))")
  show ?thesis
  proof (cases r)
    case (Inl e)
    with True d have "\<forall>p. start_session (with_preview p ev) w = (Inl (Uncaught e), w2)"
      by (simp add: start_session_def)
    then show ?thesis by (intro exI[of _ "Inl (Uncaught e, w2)"]) simp
  next
    case cl: (Inr cameras_list)
    show ?thesis
    proof (cases "cameras_list = []")
      case True
      with \<open>gp_installed ev\<close> d cl have "\<forall>p. start_session (with_preview p ev) w =
          (Inl (SystemExit 1), write_log ''No compatible DSLR camera detected'' False w2)"
        by (simp add: start_session_def)
      then show ?thesis
        by (intro exI[of _ "Inl (SystemExit 1,
              write_log ''No compatible DSLR camera detected'' False w2)"]) simp
    next
      case False
      from open_session_with_preview[of ev "log_cameras (sort_cameras cameras_list) w2"]
      obtain r' where o: "\<And>p. open_session (with_preview p ev)
            (log_cameras (sort_cameras cameras_list) w2) =
          (case r' of
             Inl (e, w') \<Rightarrow> (Inl e, w')
           | Inr (c, d, w2) \<Rightarrow>
               (Inr c, write_log (''* Capture compatible: '' @ str_bool c) False
                         (write_log (preview_line (p d)) False w2)))"
        by blast
      show ?thesis
      proof (cases r')
        case (Inl x)
        with \<open>gp_installed ev\<close> d cl False o
        have "\<forall>p. start_session (with_preview p ev) w = (Inl (Uncaught (fst x)), snd x)"
          by (simp add: start_session_def split: prod.splits)
        then show ?thesis by (intro exI[of _ "Inl (Uncaught (fst x), snd x)"]) simp
      next
        case (Inr y)
        with \<open>gp_installed ev\<close> d cl False o
        have "\<forall>p. start_session (with_preview p ev) w =
            (Inr (fst y), write_log (''* Capture compatible: '' @ str_bool (fst y)) False
                    (write_log (preview_line (p (fst (snd y)))) False (snd (snd y))))"
          by (simp add: start_session_def split: prod.splits)
        then show ?thesis by (intro exI[of _ "Inr y"]) (simp add: split_beta)
      qed
    qed
  qed
qed

lemma same_but_preview_line:
  "same_but (logged w @ [preview_line b1 @ NL]) (logged w @ [preview_line b2 @ NL])
     (stdout w @ [preview_line b1 @ NL]) (stdout w @ [preview_line b2 @ NL])
     (write_log (preview_line b1) False w) (write_log (preview_line b2) False w)"
  by (cases b1; cases b2)
     (simp_all add: same_but_def write_log_def LOGFILE_write_def print_def logged_def
        preview_line_def str_bool_def Let_def split: option.splits)

lemma same_but_one_line:
  "same_but (pre @ [x]) (pre @ [y]) (opre @ [x]) (opre @ [y]) w1 w2 \<Longrightarrow>
   \<exists>post opost.
     logged w1 = pre @ x # post \<and> logged w2 = pre @ y # post \<and>
     stdout w1 = opre @ x # opost \<and> stdout w2 = opre @ y # opost"
  by (auto simp: same_but_def logged_def)

lemma not_preview_compatible:
  "camera_get_abilities (with_preview (\<lambda>d. False) (camera config)) = succeeds 1"
  "camera_get_abilities (with_preview (\<lambda>d. True) (camera config)) = succeeds 9"
  by (simp_all add: with_preview_def camera_def succeeds_def fun_eq_iff
        GP_OPERATION_CAPTURE_PREVIEW_def)

lemma preview_attempted:
  "(CameraCapturePreview, True) \<in> set (calls (snd (scripted_exercise (camera small_config) w)))"
  by (simp add: exercise_defs)

lemma start_session_not_preview_compatible:
  "fst (start_session (with_preview (\<lambda>d. False) (camera config)) w) = Inr True"
  by (simp add: start_defs not_preview_compatible)

text \<open>
  C9. Take any environment and any world, and set the preview bit of the abilities the
  camera reports in two ways (each may depend on the state of the device at the call).
  The two runs of \<^verbatim>\<open>main\<close> end the same way, make the same calls into the driver and the
  libraries with the same results, in the same order (so \<^verbatim>\<open>camera.capture_preview()\<close> is
  attempted in one run exactly when it is in the other, preview compatible or not), and
  leave the same device, files and hook. The log files and the consoles are the same, or
  they differ in one line only, the line \<open>* Preview compatible: ...\<close>, at the same
  position in both.
\<close>

theorem preview_flag_only_logged:
  fixes w :: "'d world"
  shows "\<exists>d pre post opre opost.
     fst (main (with_preview p1 ev) w) = fst (main (with_preview p2 ev) w) \<and>
     calls (snd (main (with_preview p1 ev) w)) = calls (snd (main (with_preview p2 ev) w)) \<and>
     device (snd (main (with_preview p1 ev) w)) = device (snd (main (with_preview p2 ev) w)) \<and>
     files (snd (main (with_preview p1 ev) w)) = files (snd (main (with_preview p2 ev) w)) \<and>
     gp_log_callback (snd (main (with_preview p1 ev) w))
       = gp_log_callback (snd (main (with_preview p2 ev) w)) \<and>
     (logged (snd (main (with_preview p1 ev) w)) = logged (snd (main (with_preview p2 ev) w)) \<and>
      stdout (snd (main (with_preview p1 ev) w)) = stdout (snd (main (with_preview p2 ev) w))
      \<or>
      logged (snd (main (with_preview p1 ev) w)) = pre @ (preview_line (p1 d) @ NL) # post \<and>
      logged (snd (main (with_preview p2 ev) w)) = pre @ (preview_line (p2 d) @ NL) # post \<and>
      stdout (snd (main (with_preview p1 ev) w)) = opre @ (preview_line (p1 d) @ NL) # opost \<and>
      stdout (snd (main (with_preview p2 ev) w)) = opre @ (preview_line (p2 d) @ NL) # opost)"
proof -
  from start_session_with_preview[of ev w]
  obtain r where s: "\<And>p. start_session (with_preview p ev) w =
     (case r of
        Inl (out, w') \<Rightarrow> (Inl out, w')
      | Inr (c, d, w2) \<Rightarrow>
          (Inr c, write_log (''* Capture compatible: '' @ str_bool c) False
                    (write_log (preview_line (p d)) False w2)))"
    by blast
  show ?thesis
  proof (cases r)
    case (Inl x)
    with s have "\<And>p. main (with_preview p ev) w = (fst x, snd x)"
      by (simp add: main_rest split: prod.splits)
    then show ?thesis by simp
  next
    case (Inr y)
    obtain c d w2 where y: "y = (c, d, w2)" by (cases y)
    let ?W = "\<lambda>p. write_log (''* Capture compatible: '' @ str_bool c) False
                     (write_log (preview_line (p d)) False w2)"
    from s Inr y have m: "\<And>p. main (with_preview p ev) w = rest_of_main ev c (?W p)"
      by (simp add: main_rest rest_of_main_with_preview)
    have "same_but (logged w2 @ [preview_line (p1 d) @ NL]) (logged w2 @ [preview_line (p2 d) @ NL])
            (stdout w2 @ [preview_line (p1 d) @ NL]) (stdout w2 @ [preview_line (p2 d) @ NL])
            (?W p1) (?W p2)"
      by (intro same_but_write_log same_but_preview_line)
    from blindD[OF blind_rest_of_main this, of ev c]
    have f: "fst (main (with_preview p1 ev) w) = fst (main (with_preview p2 ev) w)"
      and b: "same_but (logged w2 @ [preview_line (p1 d) @ NL])
            (logged w2 @ [preview_line (p2 d) @ NL])
            (stdout w2 @ [preview_line (p1 d) @ NL]) (stdout w2 @ [preview_line (p2 d) @ NL])
            (snd (main (with_preview p1 ev) w)) (snd (main (with_preview p2 ev) w))"
      by (simp_all add: m)
    from same_but_one_line[OF b] obtain post opost where
      "logged (snd (main (with_preview p1 ev) w)) = logged w2 @ (preview_line (p1 d) @ NL) # post"
      "logged (snd (main (with_preview p2 ev) w)) = logged w2 @ (preview_line (p2 d) @ NL) # post"
      "stdout (snd (main (with_preview p1 ev) w)) = stdout w2 @ (preview_line (p1 d) @ NL) # opost"
      "stdout (snd (main (with_preview p2 ev) w)) = stdout w2 @ (preview_line (p2 d) @ NL) # opost"
      by blast
    with f same_but_fields[OF b] show ?thesis by blast
  qed
qed

text \<open>
  On the camera of the scenarios: with the bit cleared the abilities are 1 (capture
  only), the run makes the calls of the run with the bit set, and the preview is
  attempted.
\<close>

theorem preview_flag_only_logged_witness:
  "camera_get_abilities (with_preview (\<lambda>d. True) (camera small_config)) () = ([], Inr 9, ()) \<and>
   camera_get_abilities (with_preview (\<lambda>d. False) (camera small_config)) () = ([], Inr 1, ()) \<and>
   fst (main (with_preview (\<lambda>d. True) (camera small_config)) fresh)
     = fst (main (with_preview (\<lambda>d. False) (camera small_config)) fresh) \<and>
   calls (snd (main (with_preview (\<lambda>d. True) (camera small_config)) fresh))
     = calls (snd (main (with_preview (\<lambda>d. False) (camera small_config)) fresh)) \<and>
   (CameraCapturePreview, True)
     \<in> set (calls (snd (main (with_preview (\<lambda>d. False) (camera small_config)) fresh)))"
proof -
  let ?ev = "with_preview (\<lambda>d. False) (camera small_config)"
  obtain w3 where s: "start_session ?ev fresh = (Inr True, w3)"
    using start_session_not_preview_compatible[of small_config fresh]
    by (cases "start_session ?ev fresh") simp
  then have "main ?ev fresh = rest_of_main (camera small_config) True w3"
    by (simp add: main_rest rest_of_main_with_preview)
  with preview_attempted[of w3]
  have "(CameraCapturePreview, True) \<in> set (calls (snd (main ?ev fresh)))"
    by (simp add: rest_of_main_def capture_test_def close_session_run Let_def
          split: prod.splits sum.splits)
  with preview_flag_only_logged[of "\<lambda>d. True" "camera small_config" fresh "\<lambda>d. False"]
  show ?thesis by (auto simp: not_preview_compatible succeeds_def)
qed

end
